theory Spec2Isabelle
  imports Main "HOL-Library.Multiset"
begin

section \<open>JavaScript string primitives\<close>

text \<open>
  A JavaScript string is a sequence of code units. The development covers the code
  units \<open>0..255\<close> (Latin-1), which is what \<^typ>\<open>char\<close> holds; every operation
  used by the program (\<open>trim\<close>, \<open>split\<close>, \<open>startsWith\<close>, \<open>substring\<close>,
  \<open>toLowerCase\<close>) maps such strings to such strings.
\<close>

text \<open>
  ECMAScript \<open>WhiteSpace\<close> and \<open>LineTerminator\<close> code units below 256:
  TAB, LF, VT, FF, CR, SP and NBSP. These are what \<open>String.prototype.trim\<close> strips.
\<close>

definition isWhiteSpace :: "char \<Rightarrow> bool" where
  "isWhiteSpace c \<longleftrightarrow>
     c \<in> set [CHR 0x09, CHR 0x0A, CHR 0x0B, CHR 0x0C, CHR 0x0D, CHR 0x20, CHR 0xA0]"

definition trim :: "string \<Rightarrow> string" where
  "trim s = rev (dropWhile isWhiteSpace (rev (dropWhile isWhiteSpace s)))"

definition startsWith :: "string \<Rightarrow> string \<Rightarrow> bool" where
  "startsWith s p \<longleftrightarrow> take (length p) s = p"

definition substring :: "string \<Rightarrow> nat \<Rightarrow> string" where
  "substring s n = drop n s"

text \<open>\<open>s.split(sep)\<close> for a one-character separator: never the empty array.\<close>

fun splitOn :: "char \<Rightarrow> string \<Rightarrow> string list" where
  "splitOn sep [] = [[]]"
| "splitOn sep (c # cs) =
     (if c = sep then [] # splitOn sep cs
      else (case splitOn sep cs of
              piece # pieces \<Rightarrow> (c # piece) # pieces
            | [] \<Rightarrow> [[c]]))"

text \<open>The regular expression \<open>/Q\d+:/\<close>: \<open>\d\<close> is an ASCII decimal digit.\<close>

definition isDigit :: "char \<Rightarrow> bool" where
  "isDigit c \<longleftrightarrow> c \<in> set ''0123456789''"

text \<open>
  \<open>matchMarker s\<close> matches \<open>/Q\d+:/\<close> anchored at the start of \<open>s\<close> and returns what
  follows the match. \<open>\d+\<close> is greedy; giving digits back cannot help, since the
  character after a shorter run is a digit and not \<open>:\<close>.
\<close>

definition matchMarker :: "string \<Rightarrow> string option" where
  "matchMarker s =
     (case s of
        [] \<Rightarrow> None
      | c # cs \<Rightarrow>
          if c = CHR ''Q'' \<and> takeWhile isDigit cs \<noteq> [] then
            (case dropWhile isDigit cs of
               [] \<Rightarrow> None
             | d # r \<Rightarrow> if d = CHR '':'' then Some r else None)
          else None)"

lemma matchMarker_shorter: "matchMarker s = Some r \<Longrightarrow> length r < length s"
proof -
  assume m: "matchMarker s = Some r"
  then obtain c cs where s: "s = c # cs"
    by (cases s) (auto simp: matchMarker_def)
  from m s obtain d where "dropWhile isDigit cs = d # r"
    by (auto simp: matchMarker_def split: if_splits list.splits)
  then have "length r < length (dropWhile isDigit cs)"
    by simp
  also have "\<dots> \<le> length cs"
    by (rule length_dropWhile_le)
  finally show ?thesis
    using s by simp
qed

text \<open>
  \<open>quizText.split(/Q\d+:/)\<close>: scan from the left; at a position where the pattern
  matches, close the current piece and continue after the match; otherwise move one
  character on. The piece being built is the first argument.
\<close>

function splitMarker :: "string \<Rightarrow> string \<Rightarrow> string list" where
  "splitMarker cur [] = [cur]"
| "splitMarker cur (c # cs) =
     (case matchMarker (c # cs) of
        Some r \<Rightarrow> cur # splitMarker [] r
      | None \<Rightarrow> splitMarker (cur @ [c]) cs)"
  by pat_completeness auto
termination
  by (relation "measure (\<lambda>(cur, s). length s)") (auto dest: matchMarker_shorter)

section \<open>The quiz text parser (\<open>parseQuizText\<close>)\<close>

record Options =
  A :: string
  B :: string
  C :: string
  D :: string

record Question =
  id_q :: nat
  question :: string
  options :: Options
  correctAnswer :: string
  explanation :: string

text \<open>
  The body of \<open>lines.forEach\<close>: the locals \<open>options\<close>, \<open>correctAnswer\<close> and
  \<open>explanation\<close> are carried in the question under construction.
\<close>

definition scanLine :: "string \<Rightarrow> Question \<Rightarrow> Question" where
  "scanLine line q =
     (let trimmedLine = trim line in
      if startsWith trimmedLine ''A.'' then
        q\<lparr>options := (options q)\<lparr>A := trim (substring trimmedLine 2)\<rparr>\<rparr>
      else if startsWith trimmedLine ''B.'' then
        q\<lparr>options := (options q)\<lparr>B := trim (substring trimmedLine 2)\<rparr>\<rparr>
      else if startsWith trimmedLine ''C.'' then
        q\<lparr>options := (options q)\<lparr>C := trim (substring trimmedLine 2)\<rparr>\<rparr>
      else if startsWith trimmedLine ''D.'' then
        q\<lparr>options := (options q)\<lparr>D := trim (substring trimmedLine 2)\<rparr>\<rparr>
      else if startsWith trimmedLine ''Answer:'' then
        q\<lparr>correctAnswer := trim (substring trimmedLine 7)\<rparr>
      else if startsWith trimmedLine ''Explanation:'' then
        q\<lparr>explanation := trim (substring trimmedLine 12)\<rparr>
      else q)"

text \<open>\<open>block.trim().split('\n').filter(line => line.trim())\<close>\<close>

definition blockLines :: "string \<Rightarrow> string list" where
  "blockLines block = filter (\<lambda>line. trim line \<noteq> []) (splitOn CHR 0x0A (trim block))"

text \<open>
  One iteration of \<open>questionBlocks.forEach\<close>: \<open>None\<close> when the callback returns
  without pushing, \<open>Some q\<close> when it pushes \<open>q\<close>.
\<close>

definition parseBlock :: "nat \<Rightarrow> string \<Rightarrow> Question option" where
  "parseBlock index block =
     (if index = 0 \<or> trim block = [] then None
      else
        let lines = blockLines block in
        if length lines < 6 then None
        else
          let questionText = trim (lines ! 0);
              q = foldl (\<lambda>q line. scanLine line q)
                    \<lparr>id_q = index, question = questionText,
                     options = \<lparr>A = [], B = [], C = [], D = []\<rparr>,
                     correctAnswer = [], explanation = []\<rparr> lines
          in
            if questionText \<noteq> [] \<and> A (options q) \<noteq> [] \<and> B (options q) \<noteq> []
               \<and> C (options q) \<noteq> [] \<and> D (options q) \<noteq> [] \<and> correctAnswer q \<noteq> []
            then Some q else None)"

definition parseQuizText :: "string \<Rightarrow> Question list" where
  "parseQuizText quizText =
     List.map_filter (\<lambda>(index, block). parseBlock index block)
       (enumerate 0 (splitMarker [] quizText))"


subsection \<open>What the parser sees of a block\<close>

text \<open>
  The right half of \<open>trim\<close>: white space stripped at the end only.
\<close>

definition trimEnd :: "string \<Rightarrow> string" where
  "trimEnd s = rev (dropWhile isWhiteSpace (rev s))"

text \<open>
  The non-blank lines of a text, each trimmed: what \<open>parseBlock\<close> sees of a block.
\<close>

definition trimmedLines :: "string \<Rightarrow> string list" where
  "trimmedLines s = filter (\<lambda>t. t \<noteq> []) (map trim (splitOn CHR 0x0A s))"

text \<open>
  The \<open>if\<close>/\<open>else if\<close> chain of \<open>lines.forEach\<close>, on the line already trimmed.
\<close>

definition scanTrimmed :: "string \<Rightarrow> Question \<Rightarrow> Question" where
  "scanTrimmed trimmedLine q =
     (if startsWith trimmedLine ''A.'' then
        q\<lparr>options := (options q)\<lparr>A := trim (substring trimmedLine 2)\<rparr>\<rparr>
      else if startsWith trimmedLine ''B.'' then
        q\<lparr>options := (options q)\<lparr>B := trim (substring trimmedLine 2)\<rparr>\<rparr>
      else if startsWith trimmedLine ''C.'' then
        q\<lparr>options := (options q)\<lparr>C := trim (substring trimmedLine 2)\<rparr>\<rparr>
      else if startsWith trimmedLine ''D.'' then
        q\<lparr>options := (options q)\<lparr>D := trim (substring trimmedLine 2)\<rparr>\<rparr>
      else if startsWith trimmedLine ''Answer:'' then
        q\<lparr>correctAnswer := trim (substring trimmedLine 7)\<rparr>
      else if startsWith trimmedLine ''Explanation:'' then
        q\<lparr>explanation := trim (substring trimmedLine 12)\<rparr>
      else q)"

text \<open>
  The trimmed text after prefix \<open>p\<close> in the last line that starts with \<open>p\<close>,
  or \<open>d\<close> when no line does: a later line overwrites an earlier one.
\<close>

definition lastField :: "string \<Rightarrow> string \<Rightarrow> string list \<Rightarrow> string" where
  "lastField p d ts =
     (let xs = filter (\<lambda>t. startsWith t p) ts
      in if xs = [] then d else trim (substring (last xs) (length p)))"

subsection \<open>Blocks in the grammar of the prompt\<close>

text \<open>
  Lines joined by line feeds.
\<close>

fun joinLines :: "string list \<Rightarrow> string" where
  "joinLines [] = []"
| "joinLines [l] = l"
| "joinLines (l # m # ls) = l @ CHR 0x0A # joinLines (m # ls)"

text \<open>
  A line supplies the field with prefix \<open>p\<close> when, trimmed, it starts with \<open>p\<close>
  and has text after it.
\<close>

definition supplies :: "string \<Rightarrow> string \<Rightarrow> bool" where
  "supplies p line \<longleftrightarrow>
     startsWith (trim line) p \<and> trim (substring (trim line) (length p)) \<noteq> []"

definition requiredPrefixes :: "string list" where
  "requiredPrefixes = [''A.'', ''B.'', ''C.'', ''D.'', ''Answer:'']"

text \<open>
  A block in which some option or the answer is supplied by no line.
\<close>

definition missingField :: "string \<Rightarrow> bool" where
  "missingField body \<longleftrightarrow>
     list_ex (\<lambda>p. list_all (\<lambda>line. \<not> supplies p line) (splitOn CHR 0x0A body)) requiredPrefixes"

text \<open>
  Whether \<open>/Q\d+:/\<close> matches somewhere in a text.
\<close>

fun hasMarker :: "string \<Rightarrow> bool" where
  "hasMarker [] = False"
| "hasMarker (c # cs) = (matchMarker (c # cs) \<noteq> None \<or> hasMarker cs)"

definition marker :: "string \<Rightarrow> string" where
  "marker ds = CHR ''Q'' # ds @ '':''"

definition markerDigits :: "string \<Rightarrow> bool" where
  "markerDigits ds \<longleftrightarrow> ds \<noteq> [] \<and> list_all isDigit ds"

text \<open>
  A text before which an unfinished marker \<open>Q<digits>\<close> stays unfinished.
\<close>

definition safeStart :: "string \<Rightarrow> bool" where
  "safeStart t \<longleftrightarrow> (case t of [] \<Rightarrow> True | c # cs \<Rightarrow> \<not> isDigit c \<and> c \<noteq> CHR '':'')"

text \<open>
  A block written in the grammar of the prompt: the marker \<open>Q<number>:\<close>, the
  question text, the four option lines, the answer line, and any further lines
  (blank lines, an explanation, a separator).
\<close>

record QuizBlock =
  markerNumber :: string
  questionLine :: string
  textA :: string
  textB :: string
  textC :: string
  textD :: string
  answerText :: string
  furtherLines :: "string list"

definition blockBody :: "QuizBlock \<Rightarrow> string" where
  "blockBody b =
     joinLines ([questionLine b, ''A.'' @ textA b, ''B.'' @ textB b, ''C.'' @ textC b,
                 ''D.'' @ textD b, ''Answer:'' @ answerText b] @ furtherLines b)"

definition renderBlock :: "QuizBlock \<Rightarrow> string" where
  "renderBlock b = marker (markerNumber b) @ blockBody b"

text \<open>
  A field of a well-formed block: one line, not blank, free of markers.
\<close>

definition fieldText :: "string \<Rightarrow> bool" where
  "fieldText t \<longleftrightarrow> CHR 0x0A \<notin> set t \<and> trim t \<noteq> [] \<and> \<not> hasMarker t"

text \<open>
  A further line of a block: one line, free of markers, not an option or answer line.
\<close>

definition harmlessLine :: "string \<Rightarrow> bool" where
  "harmlessLine e \<longleftrightarrow>
     CHR 0x0A \<notin> set e \<and> \<not> hasMarker e
     \<and> list_all (\<lambda>p. \<not> startsWith (trim e) p) requiredPrefixes"

definition wellFormed :: "QuizBlock \<Rightarrow> bool" where
  "wellFormed b \<longleftrightarrow>
     markerDigits (markerNumber b) \<and> fieldText (questionLine b)
     \<and> fieldText (textA b) \<and> fieldText (textB b) \<and> fieldText (textC b)
     \<and> fieldText (textD b) \<and> fieldText (answerText b)
     \<and> list_all harmlessLine (furtherLines b)"

text \<open>
  The question a well-formed block stands for.
\<close>

definition expectedQuestion :: "nat \<Rightarrow> QuizBlock \<Rightarrow> Question" where
  "expectedQuestion index b =
     \<lparr>id_q = index, question = trim (questionLine b),
      options = \<lparr>A = trim (textA b), B = trim (textB b),
                 C = trim (textC b), D = trim (textD b)\<rparr>,
      correctAnswer = trim (answerText b),
      explanation = lastField ''Explanation:'' [] (map trim (questionLine b # furtherLines b))\<rparr>"

text \<open>
  A block of the raw text: well-formed, or malformed with its marker digits and body.
\<close>

datatype block = WellFormed QuizBlock | Malformed string string







section \<open>The quiz session (\<open>App\<close> component state and handlers)\<close>

record UserAnswer =
  questionId :: nat
  selectedAnswer :: string

text \<open>The \<open>useState\<close> cells of the component; \<open>file_sel\<close> (the cell \<open>file\<close>) holds the selected file's name.\<close>

record AppState =
  file_sel :: "string option"
  numQuestions :: nat
  loading :: bool
  error :: string
  uploadProgress :: nat
  fullQuizData :: "Question list"
  currentQuiz :: "Question list"
  currentQuestionIndex :: nat
  userAnswers :: "UserAnswer list"
  quizCompleted :: bool
  showResults :: bool

datatype js_error =
    TypeError
  | FileNameRequired
  | UnsupportedFileType string
  | FileTooLarge nat
  | EmptyPdf
  | EmptyDocx
  | EmptyTextFile
  | NoTextInImage
  | LibraryFailure string
  | ExtractionFailed string js_error
  | NoValidQuestions

definition resetQuiz :: "AppState \<Rightarrow> AppState" where
  "resetQuiz st =
     st\<lparr>currentQuestionIndex := 0, userAnswers := [], quizCompleted := False,
        showResults := False, error := []\<rparr>"

definition resetAll :: "AppState \<Rightarrow> AppState" where
  "resetAll st =
     st\<lparr>file_sel := None, fullQuizData := [], currentQuiz := [], currentQuestionIndex := 0,
        userAnswers := [], quizCompleted := False, showResults := False, error := [],
        loading := False, uploadProgress := 0, numQuestions := 5\<rparr>"

text \<open>
  \<open>startQuiz\<close>. The source shuffles with \<open>[...questions].sort(() => Math.random() - 0.5)\<close>;
  the outcome of that call is the parameter \<open>shuffle\<close>. \<open>slice(0, numQuestions)\<close> with
  a non-negative count is \<^const>\<open>take\<close>; the count comes from a selector offering
  3, 5, 7 and 10.
\<close>

definition startQuiz :: "(Question list \<Rightarrow> Question list) \<Rightarrow> Question list \<Rightarrow> AppState \<Rightarrow> AppState" where
  "startQuiz shuffle questions st =
     (let shuffled = shuffle questions;
          selectedQuestions = take (numQuestions st) shuffled
      in st\<lparr>currentQuiz := selectedQuestions, currentQuestionIndex := 0, userAnswers := [],
            quizCompleted := False, showResults := False\<rparr>)"

definition retakeQuiz :: "AppState \<Rightarrow> AppState" where
  "retakeQuiz st =
     st\<lparr>currentQuestionIndex := 0, userAnswers := [], quizCompleted := False,
        showResults := False\<rparr>"

text \<open>
  \<open>selectAnswer\<close> reads \<open>currentQuiz[currentQuestionIndex].id\<close>; out of range that is a
  property access on \<open>undefined\<close>, a \<open>TypeError\<close>, and no state is set.
\<close>

definition selectAnswer :: "string \<Rightarrow> AppState \<Rightarrow> js_error + AppState" where
  "selectAnswer answer st =
     (if currentQuestionIndex st < length (currentQuiz st) then
        let currentQuestion = currentQuiz st ! currentQuestionIndex st;
            newAnswers = filter (\<lambda>a. questionId a \<noteq> id_q currentQuestion) (userAnswers st)
        in Inr (st\<lparr>userAnswers :=
                    newAnswers @ [\<lparr>questionId = id_q currentQuestion, selectedAnswer = answer\<rparr>]\<rparr>)
      else Inl TypeError)"

definition nextQuestion :: "AppState \<Rightarrow> AppState" where
  "nextQuestion st =
     (if int (currentQuestionIndex st) < int (length (currentQuiz st)) - 1 then
        st\<lparr>currentQuestionIndex := currentQuestionIndex st + 1\<rparr>
      else st\<lparr>quizCompleted := True, showResults := True\<rparr>)"

definition prevQuestion :: "AppState \<Rightarrow> AppState" where
  "prevQuestion st =
     (if currentQuestionIndex st > 0 then
        st\<lparr>currentQuestionIndex := currentQuestionIndex st - 1\<rparr>
      else st)"

text \<open>
  \<open>calculateScore\<close>: the \<open>forEach\<close> with its counter \<open>correct\<close>. It reads the state and
  sets none of it; the state is returned beside the count to make that explicit.
\<close>

definition calculateScore :: "AppState \<Rightarrow> nat \<times> AppState" where
  "calculateScore st =
     (foldl (\<lambda>correct question.
               case find (\<lambda>a. questionId a = id_q question) (userAnswers st) of
                 Some userAnswer \<Rightarrow>
                   if selectedAnswer userAnswer = correctAnswer question then correct + 1
                   else correct
               | None \<Rightarrow> correct)
        0 (currentQuiz st), st)"

text \<open>The score line of the results view: \<open>{calculateScore()}/{currentQuiz.length}\<close>.\<close>

definition scoreDisplay :: "AppState \<Rightarrow> (nat \<times> nat) \<times> AppState" where
  "scoreDisplay st =
     (case calculateScore st of (correct, st') \<Rightarrow> ((correct, length (currentQuiz st')), st'))"

text \<open>
  The part of \<open>handleSubmit\<close> that follows an ok response carrying \<open>quiz\<close>: parse,
  throw on an empty result, else store the pool and start.
\<close>

definition noValidQuestionsMessage :: string where
  "noValidQuestionsMessage = ''No valid questions could be parsed from the generated quiz''"

definition handleQuizResponse :: "(Question list \<Rightarrow> Question list) \<Rightarrow> string \<Rightarrow> AppState \<Rightarrow> js_error + AppState" where
  "handleQuizResponse shuffle quiz st =
     (let parsedQuestions = parseQuizText quiz in
      if length parsedQuestions = 0 then Inl NoValidQuestions
      else Inr (startQuiz shuffle parsedQuestions (st\<lparr>fullQuizData := parsedQuestions\<rparr>)))"

text \<open>
  \<open>handleSubmit\<close>. Without a selected file it sets the error \<open>Please select a file\<close>
  and returns. Otherwise it resets the quiz and sends the file; \<open>response\<close> is what
  the request comes to: \<open>Inl message\<close> when \<open>fetch\<close> or the reading of the body throws
  or the status is not ok (\<open>message\<close> being the message of the error thrown), \<open>Inr quiz\<close>
  for an ok response with \<open>quiz\<close> in its body. Every \<open>throw\<close> inside the \<open>try\<close> lands in
  the \<open>catch\<close>, which sets \<open>error\<close> to the message; \<open>finally\<close> clears \<open>loading\<close>
  and \<open>uploadProgress\<close>.
\<close>

definition handleSubmit :: "(Question list \<Rightarrow> Question list) \<Rightarrow> string + string \<Rightarrow> AppState \<Rightarrow> AppState" where
  "handleSubmit shuffle response st =
     (if file_sel st = None then st\<lparr>error := ''Please select a file''\<rparr>
      else
        let st1 = resetQuiz (st\<lparr>loading := True, error := [], uploadProgress := 0\<rparr>);
            st2 = (case response of
                     Inl message \<Rightarrow> st1\<lparr>error := message\<rparr>
                   | Inr quiz \<Rightarrow>
                       (case handleQuizResponse shuffle quiz (st1\<lparr>uploadProgress := 100\<rparr>) of
                          Inl e \<Rightarrow> st1\<lparr>uploadProgress := 100, error := noValidQuestionsMessage\<rparr>
                        | Inr st' \<Rightarrow> st'))
        in st2\<lparr>loading := False, uploadProgress := 0\<rparr>)"

text \<open>Which section the component renders.\<close>

datatype phase = Idle | InProgress | Completed | NoView

definition phase :: "AppState \<Rightarrow> phase" where
  "phase st =
     (if showResults st then Completed
      else if currentQuiz st = [] then Idle
      else if currentQuestionIndex st < length (currentQuiz st) then InProgress
      else NoView)"

text \<open>A session as the user drives it between start and score.\<close>

datatype event = Select string | Next | Prev

fun step :: "event \<Rightarrow> AppState \<Rightarrow> AppState" where
  "step (Select answer) st = (case selectAnswer answer st of Inl e \<Rightarrow> st | Inr st' \<Rightarrow> st')"
| "step Next st = nextQuestion st"
| "step Prev st = prevQuestion st"

fun run :: "event list \<Rightarrow> AppState \<Rightarrow> AppState" where
  "run [] st = st"
| "run (e # es) st = run es (step e st)"

text \<open>
  The answers recorded during a run, oldest first, as (question identifier, letter),
  and the most recent letter per question: a later record overwrites an earlier one.
\<close>

fun answerLog :: "event list \<Rightarrow> AppState \<Rightarrow> (nat \<times> string) list" where
  "answerLog [] st = []"
| "answerLog (Select answer # es) st =
     (if currentQuestionIndex st < length (currentQuiz st)
      then [(id_q (currentQuiz st ! currentQuestionIndex st), answer)] else [])
     @ answerLog es (step (Select answer) st)"
| "answerLog (e # es) st = answerLog es (step e st)"

definition mostRecent :: "(nat \<times> string) list \<Rightarrow> nat \<Rightarrow> string option" where
  "mostRecent log = foldl (\<lambda>m (i, a). m(i \<mapsto> a)) Map.empty log"


text \<open>The initial values of the \<open>useState\<close> cells.\<close>

definition initialState :: AppState where
  "initialState =
     \<lparr>file_sel = None, numQuestions = 5, loading = False, error = [], uploadProgress = 0,
      fullQuizData = [], currentQuiz = [], currentQuestionIndex = 0, userAnswers = [],
      quizCompleted = False, showResults = False\<rparr>"

text \<open>
  What \<open>userAnswers.find(a => a.questionId === id)\<close> yields, as a map from question
  identifiers to letters.
\<close>

definition recorded :: "AppState \<Rightarrow> nat \<Rightarrow> string option" where
  "recorded st qid = map_option selectedAnswer (find (\<lambda>a. questionId a = qid) (userAnswers st))"

section \<open>File validation and text extraction (\<open>pages/api/generate-quiz.ts\<close>)\<close>

text \<open>
  \<open>toLowerCase\<close> on code units below 256: \<open>A\<close>--\<open>Z\<close> and the Latin-1 capitals
  \<open>0xC0\<close>--\<open>0xDE\<close> (without the multiplication sign \<open>0xD7\<close>) map to the letter
  32 code units above; every other code unit is unchanged.
\<close>

definition upperCaseLetters :: string where
  "upperCaseLetters = ''ABCDEFGHIJKLMNOPQRSTUVWXYZ'' @
     [CHR 0xC0, CHR 0xC1, CHR 0xC2, CHR 0xC3, CHR 0xC4, CHR 0xC5, CHR 0xC6, CHR 0xC7, CHR 0xC8, CHR 0xC9,
      CHR 0xCA, CHR 0xCB, CHR 0xCC, CHR 0xCD, CHR 0xCE, CHR 0xCF, CHR 0xD0, CHR 0xD1, CHR 0xD2, CHR 0xD3,
      CHR 0xD4, CHR 0xD5, CHR 0xD6, CHR 0xD8, CHR 0xD9, CHR 0xDA, CHR 0xDB, CHR 0xDC, CHR 0xDD, CHR 0xDE]"

definition lowerCaseLetters :: string where
  "lowerCaseLetters = ''abcdefghijklmnopqrstuvwxyz'' @
     [CHR 0xE0, CHR 0xE1, CHR 0xE2, CHR 0xE3, CHR 0xE4, CHR 0xE5, CHR 0xE6, CHR 0xE7, CHR 0xE8, CHR 0xE9,
      CHR 0xEA, CHR 0xEB, CHR 0xEC, CHR 0xED, CHR 0xEE, CHR 0xEF, CHR 0xF0, CHR 0xF1, CHR 0xF2, CHR 0xF3,
      CHR 0xF4, CHR 0xF5, CHR 0xF6, CHR 0xF8, CHR 0xF9, CHR 0xFA, CHR 0xFB, CHR 0xFC, CHR 0xFD, CHR 0xFE]"

definition toLowerCaseChar :: "char \<Rightarrow> char" where
  "toLowerCaseChar c =
     (case map_of (zip upperCaseLetters lowerCaseLetters) c of
        Some l \<Rightarrow> l
      | None \<Rightarrow> c)"

definition toLowerCase :: "string \<Rightarrow> string" where
  "toLowerCase s = map toLowerCaseChar s"

record UploadedFile =
  originalFilename :: "string option"
  filepath :: string
  mimetype :: "string option"
  size_f :: "nat option"

definition ALLOWED_EXTENSIONS :: "string list" where
  "ALLOWED_EXTENSIONS = [''pdf'', ''docx'', ''txt'', ''rtf'', ''jpg'', ''jpeg'', ''png'']"

definition MAX_FILE_SIZE :: nat where
  "MAX_FILE_SIZE = 10 * 1024 * 1024"

text \<open>\<open>fileName.split('.').pop()?.toLowerCase() || ""\<close>\<close>

definition parseFileExt :: "string \<Rightarrow> string" where
  "parseFileExt fileName =
     (case splitOn CHR ''.'' fileName of
        [] \<Rightarrow> []
      | pieces \<Rightarrow> toLowerCase (last pieces))"

text \<open>
  \<open>validateFile\<close>. \<open>!file.originalFilename\<close> holds for a missing and for an empty name;
  \<open>file.size && file.size > MAX_FILE_SIZE\<close> is false for a missing size and for 0.
  The message of \<open>FileTooLarge\<close> prints the size in MB to one decimal.
\<close>

definition validateFile :: "UploadedFile \<Rightarrow> js_error + unit" where
  "validateFile f =
     (case originalFilename f of
        None \<Rightarrow> Inl FileNameRequired
      | Some name \<Rightarrow>
          if name = [] then Inl FileNameRequired
          else
            let ext = parseFileExt name in
            if ext \<notin> set ALLOWED_EXTENSIONS then Inl (UnsupportedFileType ext)
            else
              (case size_f f of
                 None \<Rightarrow> Inr ()
               | Some n \<Rightarrow>
                   if n \<noteq> 0 \<and> n > MAX_FILE_SIZE then Inl (FileTooLarge n) else Inr ()))"

text \<open>
  The calls that leave the program (\<open>fs\<close>, \<open>pdf-parse\<close>, \<open>mammoth\<close>, \<open>tesseract.js\<close>)
  are answered by a \<open>world\<close>: for each call, the text it returns or the exception it
  throws. What the program does to the outside is recorded as a list of effects.
\<close>

record world =
  readFileSync_result :: "js_error + string"
  pdfParse_result :: "js_error + string"
  extractRawText_result :: "js_error + string"
  createWorker_result :: "js_error + unit"
  recognize_result :: "js_error + string"
  terminate_result :: "js_error + unit"

datatype effect = ReadFile | PdfParse | ExtractRawText | WorkerCreated | Recognize | WorkerTerminated

text \<open>
  The image case of the \<open>switch\<close> in \<open>extractText\<close>:
  \<open>const worker = await createWorker("eng"); try { ... } finally { await worker.terminate(); }\<close>
\<close>

definition ocrImage :: "world \<Rightarrow> (js_error + string) \<times> effect list" where
  "ocrImage w =
     (case createWorker_result w of
        Inl e \<Rightarrow> (Inl e, [])
      | Inr u \<Rightarrow>
          let tried =
                (case recognize_result w of
                   Inl e \<Rightarrow> Inl e
                 | Inr text \<Rightarrow> if trim text = [] then Inl NoTextInImage else Inr text)
          in (case terminate_result w of
                Inl e \<Rightarrow> (Inl e, [WorkerCreated, Recognize, WorkerTerminated])
              | Inr u' \<Rightarrow> (tried, [WorkerCreated, Recognize, WorkerTerminated])))"

text \<open>The \<open>switch (ext)\<close> inside the \<open>try\<close> of \<open>extractText\<close>.\<close>

definition extractByExt :: "world \<Rightarrow> string \<Rightarrow> string \<Rightarrow> (js_error + string) \<times> effect list" where
  "extractByExt w ext buffer =
     (if ext = ''pdf'' then
        (case pdfParse_result w of
           Inl e \<Rightarrow> (Inl e, [PdfParse])
         | Inr text \<Rightarrow> (if trim text = [] then Inl EmptyPdf else Inr text, [PdfParse]))
      else if ext = ''docx'' then
        (case extractRawText_result w of
           Inl e \<Rightarrow> (Inl e, [ExtractRawText])
         | Inr v \<Rightarrow> (if trim v = [] then Inl EmptyDocx else Inr v, [ExtractRawText]))
      else if ext = ''txt'' \<or> ext = ''rtf'' then
        (if trim buffer = [] then Inl EmptyTextFile else Inr buffer, [])
      else if ext = ''jpg'' \<or> ext = ''jpeg'' \<or> ext = ''png'' then ocrImage w
      else (Inl (UnsupportedFileType ext), []))"

text \<open>
  \<open>extractText\<close>: validate, read the file, dispatch; an exception of the dispatch is
  rethrown wrapped with the extension. The validation error is thrown before the
  \<open>try\<close> and is not wrapped.
\<close>

definition extractText :: "world \<Rightarrow> UploadedFile \<Rightarrow> (js_error + string) \<times> effect list" where
  "extractText w f =
     (case validateFile f of
        Inl e \<Rightarrow> (Inl e, [])
      | Inr u \<Rightarrow>
          let ext = parseFileExt (case originalFilename f of None \<Rightarrow> [] | Some name \<Rightarrow> name) in
          (case readFileSync_result w of
             Inl e \<Rightarrow> (Inl e, [ReadFile])
           | Inr buffer \<Rightarrow>
               (case extractByExt w ext buffer of
                  (Inl e, effects) \<Rightarrow> (Inl (ExtractionFailed ext e), ReadFile # effects)
                | (Inr text, effects) \<Rightarrow> (Inr text, ReadFile # effects))))"

text \<open>
  The earlier \<open>extractText\<close> kept in the same file (and in the handler variant that
  takes \<open>numQuestions\<close> from the form): no validation, no \<open>try\<close>/\<open>finally\<close>.
  \<open>worker.terminate()\<close> is a statement after \<open>worker.recognize(buffer)\<close>.
\<close>

definition extractText_v1 :: "world \<Rightarrow> UploadedFile \<Rightarrow> (js_error + string) \<times> effect list" where
  "extractText_v1 w f =
     (let ext = parseFileExt (case originalFilename f of None \<Rightarrow> [] | Some name \<Rightarrow> name) in
      case readFileSync_result w of
        Inl e \<Rightarrow> (Inl e, [ReadFile])
      | Inr buffer \<Rightarrow>
          if ext = ''pdf'' then
            (case pdfParse_result w of
               Inl e \<Rightarrow> (Inl e, [ReadFile, PdfParse])
             | Inr text \<Rightarrow> (Inr text, [ReadFile, PdfParse]))
          else if ext = ''docx'' then
            (case extractRawText_result w of
               Inl e \<Rightarrow> (Inl e, [ReadFile, ExtractRawText])
             | Inr v \<Rightarrow> (Inr v, [ReadFile, ExtractRawText]))
          else if ext = ''txt'' \<or> ext = ''rtf'' then (Inr buffer, [ReadFile])
          else if ext \<in> set [''jpg'', ''jpeg'', ''png''] then
            (case createWorker_result w of
               Inl e \<Rightarrow> (Inl e, [ReadFile])
             | Inr u \<Rightarrow>
                 (case recognize_result w of
                    Inl e \<Rightarrow> (Inl e, [ReadFile, WorkerCreated, Recognize])
                  | Inr text \<Rightarrow>
                      (case terminate_result w of
                         Inl e \<Rightarrow> (Inl e, [ReadFile, WorkerCreated, Recognize, WorkerTerminated])
                       | Inr u' \<Rightarrow> (Inr text, [ReadFile, WorkerCreated, Recognize, WorkerTerminated]))))
          else (Inl (UnsupportedFileType ext), [ReadFile]))"

text \<open>Every worker that was created has been terminated.\<close>

definition workerReleased :: "effect list \<Rightarrow> bool" where
  "workerReleased effects \<longleftrightarrow>
     count_list effects WorkerCreated = count_list effects WorkerTerminated"


section \<open>The earlier parser (\<open>parseAIQuizText\<close>)\<close>

text \<open>
  The question type of the earlier front end: the options are an array, and
  \<open>answer\<close> is documented as the correct answer letter. \<open>""[0]\<close> is \<open>undefined\<close>,
  here \<open>None\<close>.
\<close>

record QuizQuestion =
  question_v1 :: string
  options_v1 :: "string list"
  answer_v1 :: "string option"

text \<open>\<open>line.replace(/^Q[0-9]+:\s*/, "")\<close>\<close>

definition stripMarker :: "string \<Rightarrow> string" where
  "stripMarker line =
     (case matchMarker line of
        Some r \<Rightarrow> dropWhile isWhiteSpace r
      | None \<Rightarrow> line)"

text \<open>\<open>/^[A-D]\./.test(line)\<close>\<close>

definition isOptionLine :: "string \<Rightarrow> bool" where
  "isOptionLine line \<longleftrightarrow>
     (case line of c # d # r \<Rightarrow> c \<in> set ''ABCD'' \<and> d = CHR ''.'' | _ \<Rightarrow> False)"

text \<open>\<open>/^Answer:/i.test(line)\<close>: letters compare regardless of case.\<close>

definition isAnswerLine :: "string \<Rightarrow> bool" where
  "isAnswerLine line \<longleftrightarrow> map toLowerCaseChar (take 7 line) = ''answer:''"

text \<open>
  The \<open>while\<close> loop over the trimmed non-empty lines, from index \<open>idx\<close> on: a line
  that starts with \<open>Q\<close> opens a question built from the five lines after it, which
  is pushed whatever those lines are, and the loop continues six lines on.
\<close>

fun parseAILines :: "string list \<Rightarrow> QuizQuestion list" where
  "parseAILines [] = []"
| "parseAILines (line # rest) =
     (if startsWith line ''Q'' then
        \<lparr>question_v1 = stripMarker line,
         options_v1 = map (\<lambda>l. trim (substring l 2)) (filter isOptionLine (take 4 rest)),
         answer_v1 =
           (if 4 < length rest \<and> isAnswerLine (rest ! 4) then
              (case trim (drop 7 (rest ! 4)) of [] \<Rightarrow> None | c # cs \<Rightarrow> Some [c])
            else Some [])\<rparr>
        # parseAILines (drop 5 rest)
      else parseAILines rest)"

definition parseAIQuizText :: "string \<Rightarrow> QuizQuestion list" where
  "parseAIQuizText quiz =
     parseAILines (filter (\<lambda>l. l \<noteq> []) (map trim (splitOn CHR 0x0A quiz)))"

section \<open>Identifiers of parsed questions\<close>

lemma scanLines_id: "id_q (foldl (\<lambda>q line. scanLine line q) q0 ls) = id_q q0"
  by (induction ls arbitrary: q0) (simp_all add: scanLine_def Let_def)

lemma parseBlock_id: "parseBlock index block = Some q \<Longrightarrow> id_q q = index"
  by (auto simp: parseBlock_def Let_def scanLines_id split: if_splits)

lemma map_filter_ids:
  assumes "\<And>i b q. f (i, b) = Some q \<Longrightarrow> id_q q = i"
  shows "map id_q (List.map_filter f ps) = map fst (filter (\<lambda>p. f p \<noteq> None) ps)"
  using assms by (induction ps) (auto simp: List.map_filter_def)

lemma parseQuizText_ids:
  "map id_q (parseQuizText quizText) =
     map fst (filter (\<lambda>(index, block). parseBlock index block \<noteq> None)
                (enumerate 0 (splitMarker [] quizText)))"
proof -
  have "map id_q (List.map_filter (\<lambda>(index, block). parseBlock index block) ps)
        = map fst (filter (\<lambda>p. (\<lambda>(index, block). parseBlock index block) p \<noteq> None) ps)" for ps
    by (rule map_filter_ids) (simp add: parseBlock_id)
  then show ?thesis
    by (simp add: parseQuizText_def case_prod_unfold)
qed

lemma parseQuizText_distinct_ids: "distinct (map id_q (parseQuizText quizText))"
  unfolding parseQuizText_ids
  by (rule distinct_map_filter) simp

section \<open>Retaking a quiz\<close>

text \<open>
  Claim C8. \<open>retakeQuiz\<close> takes a completed session (the results view, over a non-empty
  sample) back to the quiz view with the same sampled questions in the same order and
  hence the same identifiers; the recorded answers are cleared and the cursor is 0.
  The pool \<open>fullQuizData\<close> is untouched as well.
\<close>

theorem retakeQuiz_same_sample:
  assumes "phase st = Completed" and "currentQuiz st \<noteq> []"
  shows "phase (retakeQuiz st) = InProgress
       \<and> currentQuiz (retakeQuiz st) = currentQuiz st
       \<and> map id_q (currentQuiz (retakeQuiz st)) = map id_q (currentQuiz st)
       \<and> userAnswers (retakeQuiz st) = []
       \<and> currentQuestionIndex (retakeQuiz st) = 0
       \<and> fullQuizData (retakeQuiz st) = fullQuizData st"
  using assms by (simp add: retakeQuiz_def phase_def)

theorem retakeQuiz_same_sample_witness:
  "phase \<lparr>file_sel = Some ''notes.txt'', numQuestions = 3, loading = False, error = [],
          uploadProgress = 0, fullQuizData = [], 
          currentQuiz = [\<lparr>id_q = 4, question = ''Q'', options = \<lparr>A = ''a'', B = ''b'', C = ''c'', D = ''d''\<rparr>,
                          correctAnswer = ''B'', explanation = []\<rparr>],
          currentQuestionIndex = 0,
          userAnswers = [\<lparr>questionId = 4, selectedAnswer = ''C''\<rparr>],
          quizCompleted = True, showResults = True\<rparr> = Completed
   \<and> retakeQuiz \<lparr>file_sel = Some ''notes.txt'', numQuestions = 3, loading = False, error = [],
          uploadProgress = 0, fullQuizData = [], 
          currentQuiz = [\<lparr>id_q = 4, question = ''Q'', options = \<lparr>A = ''a'', B = ''b'', C = ''c'', D = ''d''\<rparr>,
                          correctAnswer = ''B'', explanation = []\<rparr>],
          currentQuestionIndex = 0,
          userAnswers = [\<lparr>questionId = 4, selectedAnswer = ''C''\<rparr>],
          quizCompleted = True, showResults = True\<rparr>
     = \<lparr>file_sel = Some ''notes.txt'', numQuestions = 3, loading = False, error = [],
          uploadProgress = 0, fullQuizData = [], 
          currentQuiz = [\<lparr>id_q = 4, question = ''Q'', options = \<lparr>A = ''a'', B = ''b'', C = ''c'', D = ''d''\<rparr>,
                          correctAnswer = ''B'', explanation = []\<rparr>],
          currentQuestionIndex = 0, userAnswers = [],
          quizCompleted = False, showResults = False\<rparr>
   \<and> phase (retakeQuiz \<lparr>file_sel = Some ''notes.txt'', numQuestions = 3, loading = False, error = [],
          uploadProgress = 0, fullQuizData = [], 
          currentQuiz = [\<lparr>id_q = 4, question = ''Q'', options = \<lparr>A = ''a'', B = ''b'', C = ''c'', D = ''d''\<rparr>,
                          correctAnswer = ''B'', explanation = []\<rparr>],
          currentQuestionIndex = 0,
          userAnswers = [\<lparr>questionId = 4, selectedAnswer = ''C''\<rparr>],
          quizCompleted = True, showResults = True\<rparr>) = InProgress"
  using retakeQuiz_same_sample
    [of "\<lparr>file_sel = Some ''notes.txt'', numQuestions = 3, loading = False, error = [],
          uploadProgress = 0, fullQuizData = [], 
          currentQuiz = [\<lparr>id_q = 4, question = ''Q'', options = \<lparr>A = ''a'', B = ''b'', C = ''c'', D = ''d''\<rparr>,
                          correctAnswer = ''B'', explanation = []\<rparr>],
          currentQuestionIndex = 0,
          userAnswers = [\<lparr>questionId = 4, selectedAnswer = ''C''\<rparr>],
          quizCompleted = True, showResults = True\<rparr>"]
  by (simp add: phase_def retakeQuiz_def)

section \<open>File validation\<close>

lemma splitOn_no_sep: "sep \<notin> set s \<Longrightarrow> splitOn sep s = [s]"
  by (induction s) auto

lemma splitOn_not_Nil: "splitOn sep s \<noteq> []"
  by (cases s) (auto split: list.splits)

lemma validateFile_name_required:
  "originalFilename f = None \<or> originalFilename f = Some [] \<Longrightarrow>
     validateFile f = Inl FileNameRequired"
  by (auto simp: validateFile_def)

text \<open>
  Claim C7. For a file with a declared name and a declared byte length,
  \<open>validateFile\<close> succeeds exactly when the lower-cased extension (what follows the
  last dot) is one of pdf, docx, txt, rtf, jpg, jpeg, png and the length is at most
  10 MiB. Otherwise it fails, for a name that is not empty with an error that carries
  the extension, or else the measured size, and \<open>extractText\<close> then fails with that
  error without any effect: the file has not been read. (A missing or empty name is
  no declared name: the guard \<open>File name is required\<close> refuses it, see
  \<open>validateFile_name_required\<close>.)
\<close>

theorem validateFile_contract:
  assumes "originalFilename f = Some name" and "size_f f = Some n"
  shows "parseFileExt name = toLowerCase (last (splitOn CHR ''.'' name))
       \<and> (validateFile f = Inr () \<longleftrightarrow>
            parseFileExt name \<in> set ALLOWED_EXTENSIONS \<and> n \<le> 10 * 1024 * 1024)
       \<and> (name \<noteq> [] \<and> parseFileExt name \<notin> set ALLOWED_EXTENSIONS \<longrightarrow>
            validateFile f = Inl (UnsupportedFileType (parseFileExt name)))
       \<and> (parseFileExt name \<in> set ALLOWED_EXTENSIONS \<and> n > 10 * 1024 * 1024 \<longrightarrow>
            validateFile f = Inl (FileTooLarge n))
       \<and> (\<forall>e. validateFile f = Inl e \<longrightarrow> extractText w f = (Inl e, []))"
proof -
  have ext: "parseFileExt name = toLowerCase (last (splitOn CHR ''.'' name))"
    using splitOn_not_Nil [of "CHR ''.''" name]
    by (simp add: parseFileExt_def split: list.splits)
  have empty: "parseFileExt [] \<notin> set ALLOWED_EXTENSIONS"
    by (simp add: parseFileExt_def toLowerCase_def ALLOWED_EXTENSIONS_def)
  have ok: "validateFile f = Inr () \<longleftrightarrow>
            parseFileExt name \<in> set ALLOWED_EXTENSIONS \<and> n \<le> 10 * 1024 * 1024"
    using assms empty by (cases "name = []") (auto simp: validateFile_def Let_def MAX_FILE_SIZE_def)
  have bad_ext: "name \<noteq> [] \<and> parseFileExt name \<notin> set ALLOWED_EXTENSIONS \<longrightarrow>
            validateFile f = Inl (UnsupportedFileType (parseFileExt name))"
    using assms by (simp add: validateFile_def Let_def)
  have too_large: "parseFileExt name \<in> set ALLOWED_EXTENSIONS \<and> n > 10 * 1024 * 1024 \<longrightarrow>
            validateFile f = Inl (FileTooLarge n)"
    using assms empty by (cases "name = []") (auto simp: validateFile_def Let_def MAX_FILE_SIZE_def)
  have unread: "\<forall>e. validateFile f = Inl e \<longrightarrow> extractText w f = (Inl e, [])"
    by (simp add: extractText_def)
  from ext ok bad_ext too_large unread show ?thesis by blast
qed

lemma parseFileExt_setup_exe: "parseFileExt ''Setup.EXE'' = ''exe''"
  by (simp add: parseFileExt_def toLowerCase_def toLowerCaseChar_def
      upperCaseLetters_def lowerCaseLetters_def)

lemma parseFileExt_notes_txt: "parseFileExt ''lecture.notes.TXT'' = ''txt''"
  by (simp add: parseFileExt_def toLowerCase_def toLowerCaseChar_def
      upperCaseLetters_def lowerCaseLetters_def)

theorem validateFile_contract_witness:
  "validateFile \<lparr>originalFilename = Some ''lecture.notes.TXT'', filepath = ''/tmp/u1'',
                 mimetype = None, size_f = Some 10485760\<rparr> = Inr ()
   \<and> validateFile \<lparr>originalFilename = Some ''lecture.notes.TXT'', filepath = ''/tmp/u1'',
                 mimetype = None, size_f = Some 10485761\<rparr> = Inl (FileTooLarge 10485761)
   \<and> validateFile \<lparr>originalFilename = Some ''Setup.EXE'', filepath = ''/tmp/u2'',
                 mimetype = None, size_f = Some 512\<rparr> = Inl (UnsupportedFileType ''exe'')
   \<and> extractText
       \<lparr>readFileSync_result = Inr ''MZ'', pdfParse_result = Inr [],
        extractRawText_result = Inr [], createWorker_result = Inr (),
        recognize_result = Inr [], terminate_result = Inr ()\<rparr>
       \<lparr>originalFilename = Some ''Setup.EXE'', filepath = ''/tmp/u2'',
                 mimetype = None, size_f = Some 512\<rparr> = (Inl (UnsupportedFileType ''exe''), [])"
proof -
  let ?w = "\<lparr>readFileSync_result = Inr ''MZ'', pdfParse_result = Inr [],
        extractRawText_result = Inr [], createWorker_result = Inr (),
        recognize_result = Inr [], terminate_result = Inr ()\<rparr>"
  let ?small = "\<lparr>originalFilename = Some ''lecture.notes.TXT'', filepath = ''/tmp/u1'',
                 mimetype = None, size_f = Some 10485760\<rparr>"
  let ?large = "\<lparr>originalFilename = Some ''lecture.notes.TXT'', filepath = ''/tmp/u1'',
                 mimetype = None, size_f = Some 10485761\<rparr>"
  let ?exe = "\<lparr>originalFilename = Some ''Setup.EXE'', filepath = ''/tmp/u2'',
                 mimetype = None, size_f = Some 512\<rparr>"
  have allowed_txt: "parseFileExt ''lecture.notes.TXT'' \<in> set ALLOWED_EXTENSIONS"
    by (simp add: parseFileExt_notes_txt ALLOWED_EXTENSIONS_def)
  have refused_exe: "parseFileExt ''Setup.EXE'' \<notin> set ALLOWED_EXTENSIONS"
    by (simp add: parseFileExt_setup_exe ALLOWED_EXTENSIONS_def)
  have small: "validateFile ?small = Inr ()"
    using validateFile_contract [of ?small "''lecture.notes.TXT''" 10485760 ?w] allowed_txt by simp
  have large: "validateFile ?large = Inl (FileTooLarge 10485761)"
    using validateFile_contract [of ?large "''lecture.notes.TXT''" 10485761 ?w] allowed_txt by simp
  have c: "(parseFileExt ''Setup.EXE'' \<notin> set ALLOWED_EXTENSIONS \<longrightarrow>
            validateFile ?exe = Inl (UnsupportedFileType (parseFileExt ''Setup.EXE'')))
         \<and> (\<forall>e. validateFile ?exe = Inl e \<longrightarrow> extractText ?w ?exe = (Inl e, []))"
    using validateFile_contract [of ?exe "''Setup.EXE''" 512 ?w] by simp
  from c refused_exe have v: "validateFile ?exe = Inl (UnsupportedFileType ''exe'')"
    by (simp add: parseFileExt_setup_exe)
  with c have "extractText ?w ?exe = (Inl (UnsupportedFileType ''exe''), [])"
    by blast
  with small large v show ?thesis by blast
qed

text \<open>
  Claim C10. For a file name without a dot, \<open>parseFileExt\<close> returns the whole name
  lower-cased, which is not empty unless the name is; so when that lower-cased name is
  an allowed extension word, \<open>validateFile\<close> raises neither the missing-name nor the
  unsupported-type error, and its outcome is that of the size check alone.
\<close>

theorem parseFileExt_no_dot:
  assumes "CHR ''.'' \<notin> set fileName" and "originalFilename f = Some fileName"
  shows "parseFileExt fileName = toLowerCase fileName
       \<and> (fileName \<noteq> [] \<longrightarrow> parseFileExt fileName \<noteq> [])
       \<and> (toLowerCase fileName \<in> set ALLOWED_EXTENSIONS \<longrightarrow>
            validateFile f \<noteq> Inl FileNameRequired
          \<and> validateFile f \<noteq> Inl (UnsupportedFileType (parseFileExt fileName))
          \<and> validateFile f =
              (case size_f f of
                 None \<Rightarrow> Inr ()
               | Some n \<Rightarrow> if n > MAX_FILE_SIZE then Inl (FileTooLarge n) else Inr ()))"
proof -
  have ext: "parseFileExt fileName = toLowerCase fileName"
    using assms(1) by (simp add: parseFileExt_def splitOn_no_sep)
  have nonempty: "fileName \<noteq> [] \<longrightarrow> parseFileExt fileName \<noteq> []"
    by (simp add: ext toLowerCase_def)
  have "validateFile f \<noteq> Inl FileNameRequired
          \<and> validateFile f \<noteq> Inl (UnsupportedFileType (parseFileExt fileName))
          \<and> validateFile f =
              (case size_f f of
                 None \<Rightarrow> Inr ()
               | Some n \<Rightarrow> if n > MAX_FILE_SIZE then Inl (FileTooLarge n) else Inr ())"
    if allowed: "toLowerCase fileName \<in> set ALLOWED_EXTENSIONS"
  proof -
    from allowed have "fileName \<noteq> []"
      by (auto simp: ALLOWED_EXTENSIONS_def toLowerCase_def)
    with allowed ext assms(2) show ?thesis
      by (auto simp: validateFile_def Let_def MAX_FILE_SIZE_def split: option.splits)
  qed
  with ext nonempty show ?thesis by blast
qed

theorem parseFileExt_no_dot_witness:
  "CHR ''.'' \<notin> set ''PDF''
   \<and> parseFileExt ''PDF'' = ''pdf''
   \<and> validateFile \<lparr>originalFilename = Some ''PDF'', filepath = ''/tmp/u3'',
                   mimetype = None, size_f = Some 2048\<rparr> = Inr ()"
  using parseFileExt_no_dot [of "''PDF''" "\<lparr>originalFilename = Some ''PDF'', filepath = ''/tmp/u3'',
                   mimetype = None, size_f = Some 2048\<rparr>"]
  by (simp add: toLowerCase_def toLowerCaseChar_def upperCaseLetters_def lowerCaseLetters_def
      ALLOWED_EXTENSIONS_def MAX_FILE_SIZE_def)

section \<open>The OCR worker\<close>

lemma ocrImage_releases_worker: "workerReleased (snd (ocrImage w))"
  by (simp add: ocrImage_def workerReleased_def Let_def split: sum.splits)

lemma extractByExt_releases_worker: "workerReleased (snd (extractByExt w ext buffer))"
  using ocrImage_releases_worker [of w]
  by (simp add: extractByExt_def workerReleased_def split: sum.splits)

text \<open>
  The current \<open>extractText\<close> terminates the worker on every path: recognition
  succeeds, recognises nothing but white space, or throws.
\<close>

lemma extractText_releases_worker: "workerReleased (snd (extractText w f))"
proof (cases "validateFile f")
  case (Inl e)
  then show ?thesis
    by (simp add: extractText_def workerReleased_def)
next
  case (Inr u)
  show ?thesis
  proof (cases "readFileSync_result w")
    case (Inl e)
    with Inr show ?thesis
      by (simp add: extractText_def workerReleased_def)
  next
    case (Inr buffer)
    define ext where
      "ext = parseFileExt (case originalFilename f of None \<Rightarrow> [] | Some name \<Rightarrow> name)"
    have "snd (extractText w f) = ReadFile # snd (extractByExt w ext buffer)"
      using \<open>validateFile f = Inr u\<close> Inr
      by (cases "extractByExt w ext buffer")
         (simp add: extractText_def ext_def split: sum.splits)
    then show ?thesis
      using extractByExt_releases_worker [of w ext buffer]
      by (simp add: workerReleased_def)
  qed
qed

text \<open>
  Claim C9. The worker acquired on the image path is to be terminated on every exit
  path. The earlier \<open>extractText\<close> does not do so: when \<open>worker.recognize\<close> throws on
  an uploaded \<open>scan.png\<close>, the exception leaves the function past
  \<open>worker.terminate()\<close>, and the worker that was created is never terminated.
\<close>

theorem extractText_v1_worker_not_terminated:
  "extractText_v1
     \<lparr>readFileSync_result = Inr ''bytes'', pdfParse_result = Inr [],
      extractRawText_result = Inr [], createWorker_result = Inr (),
      recognize_result = Inl (LibraryFailure ''recognize failed''),
      terminate_result = Inr ()\<rparr>
     \<lparr>originalFilename = Some ''scan.png'', filepath = ''/tmp/upload_1'',
      mimetype = Some ''image/png'', size_f = Some 2048\<rparr>
   = (Inl (LibraryFailure ''recognize failed''), [ReadFile, WorkerCreated, Recognize])
   \<and> \<not> workerReleased [ReadFile, WorkerCreated, Recognize]"
  by (simp add: extractText_v1_def parseFileExt_def toLowerCase_def toLowerCaseChar_def
      upperCaseLetters_def lowerCaseLetters_def workerReleased_def)


section \<open>A sample quiz text\<close>

lemma parseBlock_0: "parseBlock 0 block = None"
  by (simp add: parseBlock_def)

lemma map_filter_Nil_iff: "List.map_filter f xs = [] \<longleftrightarrow> list_all (\<lambda>x. f x = None) xs"
  by (induction xs) (auto simp: List.map_filter_def)

lemma parseQuizText_Nil_iff:
  "parseQuizText quiz = [] \<longleftrightarrow>
     list_all (\<lambda>(index, block). parseBlock index block = None) (enumerate 0 (splitMarker [] quiz))"
  by (simp add: parseQuizText_def map_filter_Nil_iff case_prod_unfold)

lemma two_blocks_split:
  "splitMarker [] ''Q1: 1+1?\<newline>A. 1\<newline>B. 2\<newline>C. 3\<newline>D. 4\<newline>Answer: B\<newline>Q2: 2+2?\<newline>A. 1\<newline>B. 2\<newline>C. 3\<newline>D. 4\<newline>Answer: D''
   = [[], '' 1+1?\<newline>A. 1\<newline>B. 2\<newline>C. 3\<newline>D. 4\<newline>Answer: B\<newline>'',
      '' 2+2?\<newline>A. 1\<newline>B. 2\<newline>C. 3\<newline>D. 4\<newline>Answer: D'']"
  by (simp add: matchMarker_def isDigit_def)

lemma first_block_lines:
  "blockLines '' 1+1?\<newline>A. 1\<newline>B. 2\<newline>C. 3\<newline>D. 4\<newline>Answer: B\<newline>''
     = [''1+1?'', ''A. 1'', ''B. 2'', ''C. 3'', ''D. 4'', ''Answer: B'']"
  by (simp add: blockLines_def trim_def isWhiteSpace_def)

lemma second_block_lines:
  "blockLines '' 2+2?\<newline>A. 1\<newline>B. 2\<newline>C. 3\<newline>D. 4\<newline>Answer: D''
     = [''2+2?'', ''A. 1'', ''B. 2'', ''C. 3'', ''D. 4'', ''Answer: D'']"
  by (simp add: blockLines_def trim_def isWhiteSpace_def)

lemma first_block_parse:
  "parseBlock (Suc 0) '' 1+1?\<newline>A. 1\<newline>B. 2\<newline>C. 3\<newline>D. 4\<newline>Answer: B\<newline>''
     = Some \<lparr>id_q = 1, question = ''1+1?'',
             options = \<lparr>A = ''1'', B = ''2'', C = ''3'', D = ''4''\<rparr>,
             correctAnswer = ''B'', explanation = []\<rparr>"
  unfolding parseBlock_def first_block_lines
  by (simp add: trim_def isWhiteSpace_def scanLine_def startsWith_def substring_def)

lemma second_block_parse:
  "parseBlock (Suc (Suc 0)) '' 2+2?\<newline>A. 1\<newline>B. 2\<newline>C. 3\<newline>D. 4\<newline>Answer: D''
     = Some \<lparr>id_q = 2, question = ''2+2?'',
             options = \<lparr>A = ''1'', B = ''2'', C = ''3'', D = ''4''\<rparr>,
             correctAnswer = ''D'', explanation = []\<rparr>"
  unfolding parseBlock_def second_block_lines
  by (simp add: trim_def isWhiteSpace_def scanLine_def startsWith_def substring_def)

lemma two_blocks_parse:
  "parseQuizText ''Q1: 1+1?\<newline>A. 1\<newline>B. 2\<newline>C. 3\<newline>D. 4\<newline>Answer: B\<newline>Q2: 2+2?\<newline>A. 1\<newline>B. 2\<newline>C. 3\<newline>D. 4\<newline>Answer: D''
   = [\<lparr>id_q = 1, question = ''1+1?'',
             options = \<lparr>A = ''1'', B = ''2'', C = ''3'', D = ''4''\<rparr>,
             correctAnswer = ''B'', explanation = []\<rparr>,
      \<lparr>id_q = 2, question = ''2+2?'',
             options = \<lparr>A = ''1'', B = ''2'', C = ''3'', D = ''4''\<rparr>,
             correctAnswer = ''D'', explanation = []\<rparr>]"
  unfolding parseQuizText_def two_blocks_split
  by (simp add: List.map_filter_def parseBlock_0 first_block_parse second_block_parse)

section \<open>Starting a quiz\<close>

text \<open>
  Claim C3. Starting a quiz on a parsed pool of size \<open>P\<close> with requested count \<open>R\<close>
  (\<open>numQuestions\<close>) yields a sample of size \<open>min R P\<close> without duplicate question
  identifiers, drawn from the pool; the cursor is 0 and no answer is recorded. The
  shuffle is any reordering of the pool.
\<close>

theorem startQuiz_sample:
  assumes "mset (shuffle (parseQuizText quizText)) = mset (parseQuizText quizText)"
  shows "length (currentQuiz (startQuiz shuffle (parseQuizText quizText) st))
           = min (numQuestions st) (length (parseQuizText quizText))
       \<and> distinct (map id_q (currentQuiz (startQuiz shuffle (parseQuizText quizText) st)))
       \<and> set (currentQuiz (startQuiz shuffle (parseQuizText quizText) st))
           \<subseteq> set (parseQuizText quizText)
       \<and> currentQuestionIndex (startQuiz shuffle (parseQuizText quizText) st) = 0
       \<and> userAnswers (startQuiz shuffle (parseQuizText quizText) st) = []"
proof -
  let ?pool = "parseQuizText quizText"
  have len: "length (shuffle ?pool) = length ?pool"
    using assms by (metis size_mset)
  have "mset (map id_q (shuffle ?pool)) = mset (map id_q ?pool)"
    using assms by (metis mset_map)
  then have "distinct (map id_q (shuffle ?pool))"
    using parseQuizText_distinct_ids [of quizText] by (metis mset_eq_imp_distinct_iff)
  then have dist: "distinct (map id_q (take (numQuestions st) (shuffle ?pool)))"
    by (simp add: take_map [symmetric] distinct_take)
  have "set (take (numQuestions st) (shuffle ?pool)) \<subseteq> set (shuffle ?pool)"
    by (rule set_take_subset)
  also have "set (shuffle ?pool) = set ?pool"
    using assms by (metis set_mset_mset)
  finally have sub: "set (take (numQuestions st) (shuffle ?pool)) \<subseteq> set ?pool" .
  from len dist sub show ?thesis
    by (simp add: startQuiz_def Let_def min.commute)
qed

theorem startQuiz_sample_witness:
  "mset (rev (parseQuizText ''Q1: 1+1?\<newline>A. 1\<newline>B. 2\<newline>C. 3\<newline>D. 4\<newline>Answer: B\<newline>Q2: 2+2?\<newline>A. 1\<newline>B. 2\<newline>C. 3\<newline>D. 4\<newline>Answer: D''))
     = mset (parseQuizText ''Q1: 1+1?\<newline>A. 1\<newline>B. 2\<newline>C. 3\<newline>D. 4\<newline>Answer: B\<newline>Q2: 2+2?\<newline>A. 1\<newline>B. 2\<newline>C. 3\<newline>D. 4\<newline>Answer: D'')
   \<and> numQuestions initialState = 5
   \<and> map id_q (currentQuiz (startQuiz rev
         (parseQuizText ''Q1: 1+1?\<newline>A. 1\<newline>B. 2\<newline>C. 3\<newline>D. 4\<newline>Answer: B\<newline>Q2: 2+2?\<newline>A. 1\<newline>B. 2\<newline>C. 3\<newline>D. 4\<newline>Answer: D'')
         initialState)) = [2, 1]
   \<and> length (currentQuiz (startQuiz rev
         (parseQuizText ''Q1: 1+1?\<newline>A. 1\<newline>B. 2\<newline>C. 3\<newline>D. 4\<newline>Answer: B\<newline>Q2: 2+2?\<newline>A. 1\<newline>B. 2\<newline>C. 3\<newline>D. 4\<newline>Answer: D'')
         initialState)) = min 5 2"
  using startQuiz_sample [of rev "''Q1: 1+1?\<newline>A. 1\<newline>B. 2\<newline>C. 3\<newline>D. 4\<newline>Answer: B\<newline>Q2: 2+2?\<newline>A. 1\<newline>B. 2\<newline>C. 3\<newline>D. 4\<newline>Answer: D''" initialState]
  by (simp add: two_blocks_parse initialState_def startQuiz_def)

section \<open>Scoring\<close>

lemma find_append:
  "find P (xs @ ys) = (case find P xs of None \<Rightarrow> find P ys | Some x \<Rightarrow> Some x)"
  by (induction xs) auto

lemma find_filter_None: "(\<And>x. P x \<Longrightarrow> \<not> Q x) \<Longrightarrow> find P (filter Q xs) = None"
  by (induction xs) auto

lemma find_filter_same: "(\<And>x. P x \<Longrightarrow> Q x) \<Longrightarrow> find P (filter Q xs) = find P xs"
  by (induction xs) auto

lemma recorded_selectAnswer:
  assumes "currentQuestionIndex st < length (currentQuiz st)"
  shows "recorded (step (Select answer) st) =
           (recorded st)(id_q (currentQuiz st ! currentQuestionIndex st) \<mapsto> answer)"
proof
  fix qid
  let ?k = "id_q (currentQuiz st ! currentQuestionIndex st)"
  show "recorded (step (Select answer) st) qid = ((recorded st)(?k \<mapsto> answer)) qid"
  proof (cases "qid = ?k")
    case True
    have "find (\<lambda>a. questionId a = ?k) (filter (\<lambda>a. questionId a \<noteq> ?k) (userAnswers st)) = None"
      by (rule find_filter_None) simp
    with True assms show ?thesis
      by (simp add: recorded_def selectAnswer_def Let_def find_append)
  next
    case False
    have "find (\<lambda>a. questionId a = qid) (filter (\<lambda>a. questionId a \<noteq> ?k) (userAnswers st))
          = find (\<lambda>a. questionId a = qid) (userAnswers st)"
      by (rule find_filter_same) (use False in simp)
    with False assms show ?thesis
      by (simp add: recorded_def selectAnswer_def Let_def find_append split: option.splits)
  qed
qed

lemma recorded_select_out_of_range:
  "\<not> currentQuestionIndex st < length (currentQuiz st) \<Longrightarrow> step (Select answer) st = st"
  by (simp add: selectAnswer_def)

lemma recorded_nextQuestion: "recorded (nextQuestion st) = recorded st"
  by (rule ext) (simp add: recorded_def nextQuestion_def)

lemma recorded_prevQuestion: "recorded (prevQuestion st) = recorded st"
  by (rule ext) (simp add: recorded_def prevQuestion_def)

lemma step_currentQuiz: "currentQuiz (step e st) = currentQuiz st"
  by (cases e) (simp_all add: selectAnswer_def nextQuestion_def prevQuestion_def Let_def)

lemma run_currentQuiz: "currentQuiz (run evs st) = currentQuiz st"
  by (induction evs arbitrary: st) (simp_all add: step_currentQuiz)

lemma recorded_run:
  "recorded (run evs st) = foldl (\<lambda>m (i, a). m(i \<mapsto> a)) (recorded st) (answerLog evs st)"
proof (induction evs arbitrary: st)
  case Nil
  show ?case by simp
next
  case (Cons e evs)
  show ?case
  proof (cases e)
    case (Select answer)
    show ?thesis
    proof (cases "currentQuestionIndex st < length (currentQuiz st)")
      case True
      then show ?thesis
        using Cons.IH [of "step (Select answer) st"] recorded_selectAnswer [OF True, of answer]
        by (simp add: Select)
    next
      case False
      then show ?thesis
        using Cons.IH [of st] recorded_select_out_of_range [OF False, of answer]
        by (simp add: Select)
    qed
  next
    case Next
    then show ?thesis
      using Cons.IH [of "nextQuestion st"] by (simp add: recorded_nextQuestion)
  next
    case Prev
    then show ?thesis
      using Cons.IH [of "prevQuestion st"] by (simp add: recorded_prevQuestion)
  qed
qed

lemma count_matches:
  "foldl (\<lambda>correct question. if P question then correct + 1 else correct) n qs
     = n + length (filter P qs)"
  by (induction qs arbitrary: n) simp_all

lemma calculateScore_recorded:
  "fst (calculateScore st) =
     length (filter (\<lambda>q. recorded st (id_q q) = Some (correctAnswer q)) (currentQuiz st))"
proof -
  have eq: "(\<lambda>correct question.
               case find (\<lambda>a. questionId a = id_q question) (userAnswers st) of
                 Some userAnswer \<Rightarrow>
                   if selectedAnswer userAnswer = correctAnswer question then correct + 1
                   else correct
               | None \<Rightarrow> correct)
        = (\<lambda>correct question.
             if recorded st (id_q question) = Some (correctAnswer question) then correct + 1
             else correct)"
    by (intro ext) (simp add: recorded_def split: option.splits)
  show ?thesis
    unfolding calculateScore_def fst_conv eq count_matches by simp
qed

text \<open>
  Claim C4. After any run of answer selections and navigation from a freshly started
  session, the score shown is the pair of the number of sampled questions whose most
  recently recorded letter equals the question's correct letter, and the sample size.
  Computing it leaves the session state as it was, and computing it again gives the
  same pair.
\<close>

theorem score_counts_most_recent_answers:
  assumes "userAnswers st0 = []"
  shows "fst (scoreDisplay (run evs st0)) =
           (length (filter (\<lambda>q. mostRecent (answerLog evs st0) (id_q q) = Some (correctAnswer q))
                      (currentQuiz (run evs st0))),
            length (currentQuiz (run evs st0)))
       \<and> currentQuiz (run evs st0) = currentQuiz st0
       \<and> snd (scoreDisplay (run evs st0)) = run evs st0
       \<and> scoreDisplay (snd (scoreDisplay (run evs st0))) = scoreDisplay (run evs st0)"
proof -
  have "recorded st0 = Map.empty"
    using assms by (intro ext) (simp add: recorded_def)
  then have "recorded (run evs st0) = mostRecent (answerLog evs st0)"
    by (simp add: recorded_run mostRecent_def)
  then have "fst (calculateScore (run evs st0)) =
     length (filter (\<lambda>q. mostRecent (answerLog evs st0) (id_q q) = Some (correctAnswer q))
               (currentQuiz (run evs st0)))"
    by (simp add: calculateScore_recorded)
  moreover have "snd (calculateScore st) = st" for st
    by (simp add: calculateScore_def)
  ultimately show ?thesis
    by (simp add: scoreDisplay_def case_prod_unfold run_currentQuiz)
qed

theorem score_counts_most_recent_answers_witness:
  "userAnswers (startQuiz rev
         (parseQuizText ''Q1: 1+1?\<newline>A. 1\<newline>B. 2\<newline>C. 3\<newline>D. 4\<newline>Answer: B\<newline>Q2: 2+2?\<newline>A. 1\<newline>B. 2\<newline>C. 3\<newline>D. 4\<newline>Answer: D'')
         initialState) = []
   \<and> fst (scoreDisplay (run [Select ''A'', Select ''D'', Next, Select ''C'', Prev, Next, Select ''B'', Next]
        (startQuiz rev
         (parseQuizText ''Q1: 1+1?\<newline>A. 1\<newline>B. 2\<newline>C. 3\<newline>D. 4\<newline>Answer: B\<newline>Q2: 2+2?\<newline>A. 1\<newline>B. 2\<newline>C. 3\<newline>D. 4\<newline>Answer: D'')
         initialState))) = (2, 2)"
  using score_counts_most_recent_answers [of "startQuiz rev
         (parseQuizText ''Q1: 1+1?\<newline>A. 1\<newline>B. 2\<newline>C. 3\<newline>D. 4\<newline>Answer: B\<newline>Q2: 2+2?\<newline>A. 1\<newline>B. 2\<newline>C. 3\<newline>D. 4\<newline>Answer: D'')
         initialState" "[Select ''A'', Select ''D'', Next, Select ''C'', Prev, Next, Select ''B'', Next]"]
  by (simp add: two_blocks_parse initialState_def startQuiz_def mostRecent_def
      selectAnswer_def nextQuestion_def prevQuestion_def)

section \<open>Trimming and lines\<close>

lemma trim_Nil [simp]: "trim [] = []"
  by (simp add: trim_def)

lemma trimEnd_Nil [simp]: "trimEnd [] = []"
  by (simp add: trimEnd_def)

lemma all_dropWhile: "(\<forall>x\<in>set (dropWhile P s). P x) \<longleftrightarrow> (\<forall>x\<in>set s. P x)"
  by (induction s) auto

lemma trim_ws_Cons: "isWhiteSpace c \<Longrightarrow> trim (c # s) = trim s"
  by (simp add: trim_def)

lemma trimEnd_snoc: "isWhiteSpace c \<Longrightarrow> trimEnd (s @ [c]) = trimEnd s"
  by (simp add: trimEnd_def)

lemma trim_trimEnd: "trim s = trimEnd (dropWhile isWhiteSpace s)"
  by (simp add: trim_def trimEnd_def)

lemma dropWhile_trimEnd: "dropWhile isWhiteSpace (trimEnd s) = trimEnd (dropWhile isWhiteSpace s)"
proof (induction s)
  case Nil
  show ?case by (simp add: trimEnd_def)
next
  case (Cons c s)
  show ?case
  proof (cases "isWhiteSpace c")
    case False
    then have "trimEnd (c # s) = c # trimEnd s"
      by (simp add: trimEnd_def dropWhile_append3)
    with False show ?thesis by simp
  next
    case True
    show ?thesis
    proof (cases "\<forall>x\<in>set s. isWhiteSpace x")
      case all: True
      then have te: "trimEnd (c # s) = []"
        using True by (simp add: trimEnd_def)
      have dw: "dropWhile isWhiteSpace s = []"
        using all by simp
      show ?thesis using True by (simp add: te dw)
    next
      case False
      then have "trimEnd (c # s) = c # trimEnd s"
        by (auto simp: trimEnd_def dropWhile_append)
      with True Cons show ?thesis by simp
    qed
  qed
qed

lemma trim_alt: "trim s = dropWhile isWhiteSpace (trimEnd s)"
  by (simp add: trim_trimEnd dropWhile_trimEnd)

lemma trim_ws_snoc: "isWhiteSpace c \<Longrightarrow> trim (s @ [c]) = trim s"
  by (simp add: trim_alt trimEnd_snoc)

lemma trim_eq_Nil_iff: "trim s = [] \<longleftrightarrow> (\<forall>c\<in>set s. isWhiteSpace c)"
  by (simp add: trim_def dropWhile_eq_Nil_conv all_dropWhile)

lemma splitOn_snoc:
  "splitOn sep (s @ [c]) =
     (if c = sep then splitOn sep s @ [[]]
      else butlast (splitOn sep s) @ [last (splitOn sep s) @ [c]])"
proof (induction s)
  case Nil
  show ?case by simp
next
  case (Cons x s)
  obtain p ps where sp: "splitOn sep s = p # ps"
    using splitOn_not_Nil [of sep s] by (cases "splitOn sep s") auto
  obtain p' ps' where sp': "splitOn sep (s @ [c]) = p' # ps'"
    using splitOn_not_Nil [of sep "s @ [c]"] by (cases "splitOn sep (s @ [c])") auto
  from Cons sp sp' show ?case
    by (auto split: if_splits)
qed

lemma trimmedLines_ws_Cons: "isWhiteSpace c \<Longrightarrow> trimmedLines (c # s) = trimmedLines s"
proof -
  assume ws: "isWhiteSpace c"
  obtain p ps where sp: "splitOn CHR 0x0A s = p # ps"
    using splitOn_not_Nil [of "CHR 0x0A" s] by (cases "splitOn CHR 0x0A s") auto
  show ?thesis
    using ws sp by (simp add: trimmedLines_def trim_ws_Cons)
qed

lemma trimmedLines_ws_snoc: "isWhiteSpace c \<Longrightarrow> trimmedLines (s @ [c]) = trimmedLines s"
proof -
  assume ws: "isWhiteSpace c"
  have ne: "splitOn CHR 0x0A s \<noteq> []"
    by (rule splitOn_not_Nil)
  then have bl: "splitOn CHR 0x0A s = butlast (splitOn CHR 0x0A s) @ [last (splitOn CHR 0x0A s)]"
    by simp
  show ?thesis
  proof (cases "c = CHR 0x0A")
    case True
    then show ?thesis
      by (simp add: trimmedLines_def splitOn_snoc)
  next
    case False
    have "trimmedLines (s @ [c]) =
      filter (\<lambda>t. t \<noteq> []) (map trim (butlast (splitOn CHR 0x0A s) @ [last (splitOn CHR 0x0A s) @ [c]]))"
      using False by (simp add: trimmedLines_def splitOn_snoc)
    also have "\<dots> = filter (\<lambda>t. t \<noteq> []) (map trim (butlast (splitOn CHR 0x0A s) @ [last (splitOn CHR 0x0A s)]))"
      using ws by (simp add: trim_ws_snoc)
    also have "\<dots> = trimmedLines s"
      using bl by (simp add: trimmedLines_def)
    finally show ?thesis .
  qed
qed

lemma trimmedLines_dropWhile: "trimmedLines (dropWhile isWhiteSpace s) = trimmedLines s"
  by (induction s) (simp_all add: trimmedLines_ws_Cons)

lemma trimmedLines_trimEnd: "trimmedLines (trimEnd s) = trimmedLines s"
proof (induction s rule: rev_induct)
  case Nil
  show ?case by (simp add: trimEnd_def)
next
  case (snoc c s)
  show ?case
  proof (cases "isWhiteSpace c")
    case True
    with snoc show ?thesis
      by (simp add: trimEnd_snoc trimmedLines_ws_snoc)
  next
    case False
    then have "trimEnd (s @ [c]) = s @ [c]"
      by (simp add: trimEnd_def)
    then show ?thesis by simp
  qed
qed

lemma trimmedLines_trim: "trimmedLines (trim s) = trimmedLines s"
  by (simp add: trim_trimEnd trimmedLines_trimEnd trimmedLines_dropWhile)

lemma blockLines_trimmed: "map trim (blockLines block) = trimmedLines block"
proof -
  have "map trim (blockLines block) = trimmedLines (trim block)"
    by (simp add: blockLines_def trimmedLines_def filter_map comp_def)
  then show ?thesis
    by (simp add: trimmedLines_trim)
qed

section \<open>The block parser on trimmed lines\<close>

lemma scanLine_trimmed: "scanLine line q = scanTrimmed (trim line) q"
  by (simp add: scanLine_def scanTrimmed_def Let_def)

lemma scanLines_trimmed:
  "foldl (\<lambda>q line. scanLine line q) q0 ls = foldl (\<lambda>q t. scanTrimmed t q) q0 (map trim ls)"
  by (simp add: foldl_map scanLine_trimmed)

lemma startsWith_Cons_iff: "startsWith t (c # p) \<longleftrightarrow> (\<exists>r. t = c # r \<and> startsWith r p)"
  by (cases t) (auto simp: startsWith_def)

lemma startsWith_Nil [simp]: "startsWith t []"
  by (simp add: startsWith_def)

lemma lastField_Nil [simp]: "lastField p d [] = d"
  by (simp add: lastField_def)

lemma lastField_snoc:
  "lastField p d (ts @ [t]) =
     (if startsWith t p then trim (substring t (length p)) else lastField p d ts)"
  by (simp add: lastField_def Let_def)

lemma prefix_A:
  "startsWith t ''A.'' \<Longrightarrow>
     \<not> startsWith t ''B.'' \<and> \<not> startsWith t ''C.'' \<and> \<not> startsWith t ''D.''
     \<and> \<not> startsWith t ''Answer:'' \<and> \<not> startsWith t ''Explanation:''"
  by (auto simp: startsWith_Cons_iff)

lemma prefix_B:
  "startsWith t ''B.'' \<Longrightarrow>
     \<not> startsWith t ''A.'' \<and> \<not> startsWith t ''C.'' \<and> \<not> startsWith t ''D.''
     \<and> \<not> startsWith t ''Answer:'' \<and> \<not> startsWith t ''Explanation:''"
  by (auto simp: startsWith_Cons_iff)

lemma prefix_C:
  "startsWith t ''C.'' \<Longrightarrow>
     \<not> startsWith t ''A.'' \<and> \<not> startsWith t ''B.'' \<and> \<not> startsWith t ''D.''
     \<and> \<not> startsWith t ''Answer:'' \<and> \<not> startsWith t ''Explanation:''"
  by (auto simp: startsWith_Cons_iff)

lemma prefix_D:
  "startsWith t ''D.'' \<Longrightarrow>
     \<not> startsWith t ''A.'' \<and> \<not> startsWith t ''B.'' \<and> \<not> startsWith t ''C.''
     \<and> \<not> startsWith t ''Answer:'' \<and> \<not> startsWith t ''Explanation:''"
  by (auto simp: startsWith_Cons_iff)

lemma prefix_Answer:
  "startsWith t ''Answer:'' \<Longrightarrow>
     \<not> startsWith t ''A.'' \<and> \<not> startsWith t ''B.'' \<and> \<not> startsWith t ''C.''
     \<and> \<not> startsWith t ''D.'' \<and> \<not> startsWith t ''Explanation:''"
  by (auto simp: startsWith_Cons_iff)

lemma scanTrimmed_step:
  "scanTrimmed t
     \<lparr>id_q = i, question = qt,
      options = \<lparr>A = lastField ''A.'' a ts, B = lastField ''B.'' b ts,
                 C = lastField ''C.'' c ts, D = lastField ''D.'' d ts\<rparr>,
      correctAnswer = lastField ''Answer:'' ans ts,
      explanation = lastField ''Explanation:'' ex ts\<rparr>
   = \<lparr>id_q = i, question = qt,
      options = \<lparr>A = lastField ''A.'' a (ts @ [t]), B = lastField ''B.'' b (ts @ [t]),
                 C = lastField ''C.'' c (ts @ [t]), D = lastField ''D.'' d (ts @ [t])\<rparr>,
      correctAnswer = lastField ''Answer:'' ans (ts @ [t]),
      explanation = lastField ''Explanation:'' ex (ts @ [t])\<rparr>"
proof -
  consider (a) "startsWith t ''A.''" | (b) "startsWith t ''B.''" | (c) "startsWith t ''C.''"
    | (d) "startsWith t ''D.''" | (ans) "startsWith t ''Answer:''"
    | (other) "\<not> startsWith t ''A.''" "\<not> startsWith t ''B.''" "\<not> startsWith t ''C.''"
        "\<not> startsWith t ''D.''" "\<not> startsWith t ''Answer:''"
    by blast
  then show ?thesis
  proof cases
    case a
    with prefix_A [OF a] show ?thesis
      by (simp add: scanTrimmed_def lastField_snoc eval_nat_numeral)
  next
    case b
    with prefix_B [OF b] show ?thesis
      by (simp add: scanTrimmed_def lastField_snoc eval_nat_numeral)
  next
    case c
    with prefix_C [OF c] show ?thesis
      by (simp add: scanTrimmed_def lastField_snoc eval_nat_numeral)
  next
    case d
    with prefix_D [OF d] show ?thesis
      by (simp add: scanTrimmed_def lastField_snoc eval_nat_numeral)
  next
    case ans
    with prefix_Answer [OF ans] show ?thesis
      by (simp add: scanTrimmed_def lastField_snoc eval_nat_numeral)
  next
    case other
    then show ?thesis
      by (simp add: scanTrimmed_def lastField_snoc eval_nat_numeral)
  qed
qed

lemma scanTrimmed_fold:
  "foldl (\<lambda>q t. scanTrimmed t q) q0 ts =
     \<lparr>id_q = id_q q0, question = question q0,
      options = \<lparr>A = lastField ''A.'' (A (options q0)) ts,
                 B = lastField ''B.'' (B (options q0)) ts,
                 C = lastField ''C.'' (C (options q0)) ts,
                 D = lastField ''D.'' (D (options q0)) ts\<rparr>,
      correctAnswer = lastField ''Answer:'' (correctAnswer q0) ts,
      explanation = lastField ''Explanation:'' (explanation q0) ts\<rparr>"
proof (induction ts rule: rev_induct)
  case Nil
  show ?case by simp
next
  case (snoc t ts)
  show ?case
    unfolding foldl_append snoc.IH
    by (simp add: scanTrimmed_step)
qed

lemma trimmedLines_nonempty: "t \<in> set (trimmedLines s) \<Longrightarrow> t \<noteq> []"
  by (simp add: trimmedLines_def)

lemma trimmedLines_of_blank: "trim s = [] \<Longrightarrow> trimmedLines s = []"
proof -
  assume "trim s = []"
  then have "trimmedLines (trim s) = []"
    by (simp add: trimmedLines_def)
  then show ?thesis
    by (simp add: trimmedLines_trim)
qed

lemma parseBlock_trimmedLines:
  "parseBlock index block =
     (let ts = trimmedLines block in
      if index = 0 \<or> length ts < 6
         \<or> lastField ''A.'' [] ts = [] \<or> lastField ''B.'' [] ts = []
         \<or> lastField ''C.'' [] ts = [] \<or> lastField ''D.'' [] ts = []
         \<or> lastField ''Answer:'' [] ts = []
      then None
      else Some \<lparr>id_q = index, question = hd ts,
                  options = \<lparr>A = lastField ''A.'' [] ts, B = lastField ''B.'' [] ts,
                             C = lastField ''C.'' [] ts, D = lastField ''D.'' [] ts\<rparr>,
                  correctAnswer = lastField ''Answer:'' [] ts,
                  explanation = lastField ''Explanation:'' [] ts\<rparr>)"
proof (cases "index = 0 \<or> trim block = []")
  case True
  then show ?thesis
    by (auto simp: parseBlock_def trimmedLines_of_blank)
next
  case False
  have len: "length (blockLines block) = length (trimmedLines block)"
    by (metis blockLines_trimmed length_map)
  show ?thesis
  proof (cases "length (trimmedLines block) < 6")
    case True
    with False len show ?thesis
      by (simp add: parseBlock_def Let_def)
  next
    case long: False
    then have ne: "trimmedLines block \<noteq> []" by auto
    have "0 < length (blockLines block)"
      using long len by linarith
    then have "trim (blockLines block ! 0) = map trim (blockLines block) ! 0"
      by (simp add: nth_map)
    then have q: "trim (blockLines block ! 0) = hd (trimmedLines block)"
      using ne by (simp add: blockLines_trimmed hd_conv_nth)
    have "hd (trimmedLines block) \<in> set (trimmedLines block)"
      using ne by simp
    then have qne: "hd (trimmedLines block) \<noteq> []"
      by (rule trimmedLines_nonempty)
    show ?thesis
      using False long len qne
      by (simp add: parseBlock_def Let_def scanLines_trimmed blockLines_trimmed
          scanTrimmed_fold q)
  qed
qed

lemma splitOn_append_sep: "sep \<notin> set l \<Longrightarrow> splitOn sep (l @ sep # r) = l # splitOn sep r"
  by (induction l) auto

lemma splitOn_joinLines:
  "ls \<noteq> [] \<Longrightarrow> \<forall>l\<in>set ls. CHR 0x0A \<notin> set l \<Longrightarrow> splitOn CHR 0x0A (joinLines ls) = ls"
  by (induction ls rule: joinLines.induct) (simp_all add: splitOn_no_sep splitOn_append_sep)

lemma trimEnd_idem: "trimEnd (trimEnd s) = trimEnd s"
  by (simp add: trimEnd_def)

lemma trim_of_trimEnd: "trim (trimEnd s) = trim s"
  by (simp add: trim_alt trimEnd_idem)

lemma trimEnd_prefix:
  assumes "p \<noteq> []" and "\<not> isWhiteSpace (last p)"
  shows "trimEnd (p @ s) = p @ trimEnd s"
proof -
  have "dropWhile isWhiteSpace (rev p) = rev p"
    using assms by (cases "rev p") (auto simp: last_rev [symmetric] simp del: last_rev)
  then show ?thesis
    by (simp add: trimEnd_def dropWhile_append)
qed

lemma trim_prefix:
  assumes "p \<noteq> []" and "\<not> isWhiteSpace (hd p)" and "\<not> isWhiteSpace (last p)"
  shows "trim (p @ s) = p @ trimEnd s"
proof -
  have "dropWhile isWhiteSpace (p @ trimEnd s) = p @ trimEnd s"
    using assms(1,2) by (cases p) auto
  then show ?thesis
    using assms by (simp add: trim_alt trimEnd_prefix)
qed

lemma trim_option_line:
  "trim (CHR ''A'' # CHR ''.'' # s) = CHR ''A'' # CHR ''.'' # trimEnd s"
  "trim (CHR ''B'' # CHR ''.'' # s) = CHR ''B'' # CHR ''.'' # trimEnd s"
  "trim (CHR ''C'' # CHR ''.'' # s) = CHR ''C'' # CHR ''.'' # trimEnd s"
  "trim (CHR ''D'' # CHR ''.'' # s) = CHR ''D'' # CHR ''.'' # trimEnd s"
  "trim (CHR ''A'' # CHR ''n'' # CHR ''s'' # CHR ''w'' # CHR ''e'' # CHR ''r'' # CHR '':'' # s)
     = CHR ''A'' # CHR ''n'' # CHR ''s'' # CHR ''w'' # CHR ''e'' # CHR ''r'' # CHR '':'' # trimEnd s"
  using trim_prefix [of "''A.''" s] trim_prefix [of "''B.''" s] trim_prefix [of "''C.''" s]
    trim_prefix [of "''D.''" s] trim_prefix [of "''Answer:''" s]
  by (simp_all add: isWhiteSpace_def)

lemma lastField_Cons:
  "lastField p d (t # ts) =
     lastField p (if startsWith t p then trim (substring t (length p)) else d) ts"
  by (simp add: lastField_def Let_def)

lemma lastField_unchanged: "\<forall>t\<in>set ts. \<not> startsWith t p \<Longrightarrow> lastField p d ts = d"
  by (induction ts arbitrary: d) (simp_all add: lastField_Cons)

lemma lastField_append: "lastField p d (ts @ us) = lastField p (lastField p d ts) us"
  by (induction ts arbitrary: d) (simp_all add: lastField_Cons)

lemma lastField_nonblank:
  "p \<noteq> [] \<Longrightarrow> lastField p d (filter (\<lambda>t. t \<noteq> []) ts) = lastField p d ts"
  by (induction ts arbitrary: d) (auto simp: lastField_Cons startsWith_def)

lemma lastField_empty:
  "\<forall>t\<in>set ts. startsWith t p \<longrightarrow> trim (substring t (length p)) = [] \<Longrightarrow> lastField p [] ts = []"
proof -
  assume a: "\<forall>t\<in>set ts. startsWith t p \<longrightarrow> trim (substring t (length p)) = []"
  show ?thesis
  proof (cases "filter (\<lambda>t. startsWith t p) ts = []")
    case True
    then show ?thesis by (simp add: lastField_def)
  next
    case False
    then have "last (filter (\<lambda>t. startsWith t p) ts) \<in> set (filter (\<lambda>t. startsWith t p) ts)"
      by (rule last_in_set)
    with a have "trim (substring (last (filter (\<lambda>t. startsWith t p) ts)) (length p)) = []"
      by simp
    then show ?thesis by (simp add: lastField_def Let_def)
  qed
qed

lemma lastField_supplied:
  "lastField p [] ts \<noteq> [] \<Longrightarrow> \<exists>t\<in>set ts. startsWith t p \<and> trim (substring t (length p)) \<noteq> []"
  using lastField_empty [of ts p] by blast

lemma trimmedLines_set: "set (trimmedLines s) \<subseteq> trim ` set (splitOn CHR 0x0A s)"
  by (auto simp: trimmedLines_def)

lemma missing_field_no_question:
  assumes "\<forall>line\<in>set (splitOn CHR 0x0A block). \<not> supplies p line"
    and "p \<in> set requiredPrefixes"
  shows "parseBlock index block = None"
proof -
  have "\<forall>t\<in>set (trimmedLines block). startsWith t p \<longrightarrow> trim (substring t (length p)) = []"
    using assms(1) trimmedLines_set [of block] by (auto simp: supplies_def)
  then have "lastField p [] (trimmedLines block) = []"
    by (rule lastField_empty)
  with assms(2) show ?thesis
    by (auto simp: parseBlock_trimmedLines Let_def requiredPrefixes_def)
qed

lemma parseBlock_Some_fields:
  assumes "parseBlock index block = Some q"
  shows "index \<noteq> 0 \<and> id_q q = index \<and> question q \<noteq> []
       \<and> A (options q) \<noteq> [] \<and> B (options q) \<noteq> [] \<and> C (options q) \<noteq> []
       \<and> D (options q) \<noteq> [] \<and> correctAnswer q \<noteq> []
       \<and> 6 \<le> length (trimmedLines block)"
proof -
  have "hd (trimmedLines block) \<noteq> []" if "trimmedLines block \<noteq> []"
    using that trimmedLines_nonempty [of "hd (trimmedLines block)" block] by simp
  moreover have "trimmedLines block \<noteq> []" if "\<not> length (trimmedLines block) < 6"
    using that by auto
  ultimately show ?thesis
    using assms by (auto simp: parseBlock_trimmedLines Let_def split: if_splits)
qed

section \<open>Well-formed blocks\<close>

lemma wellFormed_trimmedLines:
  assumes "wellFormed b"
  shows "trimmedLines (blockBody b) =
           trim (questionLine b) # (''A.'' @ trimEnd (textA b)) # (''B.'' @ trimEnd (textB b))
           # (''C.'' @ trimEnd (textC b)) # (''D.'' @ trimEnd (textD b))
           # (''Answer:'' @ trimEnd (answerText b))
           # filter (\<lambda>t. t \<noteq> []) (map trim (furtherLines b))"
proof -
  let ?lines = "[questionLine b, ''A.'' @ textA b, ''B.'' @ textB b, ''C.'' @ textC b,
                 ''D.'' @ textD b, ''Answer:'' @ answerText b] @ furtherLines b"
  have "\<forall>l\<in>set ?lines. CHR 0x0A \<notin> set l"
    using assms by (auto simp: wellFormed_def fieldText_def harmlessLine_def list_all_iff)
  then have "splitOn CHR 0x0A (joinLines ?lines) = ?lines"
    by (intro splitOn_joinLines) simp_all
  then have "trimmedLines (blockBody b) = filter (\<lambda>t. t \<noteq> []) (map trim ?lines)"
    by (simp only: trimmedLines_def blockBody_def)
  also have "\<dots> = trim (questionLine b) # (''A.'' @ trimEnd (textA b)) # (''B.'' @ trimEnd (textB b))
           # (''C.'' @ trimEnd (textC b)) # (''D.'' @ trimEnd (textD b))
           # (''Answer:'' @ trimEnd (answerText b))
           # filter (\<lambda>t. t \<noteq> []) (map trim (furtherLines b))"
    using assms by (simp add: wellFormed_def fieldText_def trim_option_line)
  finally show ?thesis .
qed

lemma startsWith_append_same [simp]: "startsWith (p @ s) p"
  by (simp add: startsWith_def)

lemma wellFormed_extras:
  assumes "wellFormed b" and "p \<in> set requiredPrefixes"
  shows "lastField p d (filter (\<lambda>t. t \<noteq> []) (map trim (furtherLines b))) = d"
proof (rule lastField_unchanged)
  show "\<forall>t\<in>set (filter (\<lambda>t. t \<noteq> []) (map trim (furtherLines b))). \<not> startsWith t p"
    using assms by (auto simp: wellFormed_def harmlessLine_def list_all_iff)
qed

lemma substring_prefix: "substring (p @ s) (length p) = s"
  by (simp add: substring_def)

lemma wellFormed_field_A:
  assumes "wellFormed b"
  shows "lastField ''A.'' [] (trimmedLines (blockBody b)) = trim (textA b)"
  unfolding wellFormed_trimmedLines [OF assms] lastField_Cons
  using wellFormed_extras [OF assms, of "''A.''"] substring_prefix [of "''A.''"]
  by (simp add: startsWith_def substring_def trim_of_trimEnd requiredPrefixes_def)

lemma wellFormed_field_B:
  assumes "wellFormed b"
  shows "lastField ''B.'' [] (trimmedLines (blockBody b)) = trim (textB b)"
  unfolding wellFormed_trimmedLines [OF assms] lastField_Cons
  using wellFormed_extras [OF assms, of "''B.''"] substring_prefix [of "''B.''"]
  by (simp add: startsWith_def substring_def trim_of_trimEnd requiredPrefixes_def)

lemma wellFormed_field_C:
  assumes "wellFormed b"
  shows "lastField ''C.'' [] (trimmedLines (blockBody b)) = trim (textC b)"
  unfolding wellFormed_trimmedLines [OF assms] lastField_Cons
  using wellFormed_extras [OF assms, of "''C.''"] substring_prefix [of "''C.''"]
  by (simp add: startsWith_def substring_def trim_of_trimEnd requiredPrefixes_def)

lemma wellFormed_field_D:
  assumes "wellFormed b"
  shows "lastField ''D.'' [] (trimmedLines (blockBody b)) = trim (textD b)"
  unfolding wellFormed_trimmedLines [OF assms] lastField_Cons
  using wellFormed_extras [OF assms, of "''D.''"] substring_prefix [of "''D.''"]
  by (simp add: startsWith_def substring_def trim_of_trimEnd requiredPrefixes_def)

lemma wellFormed_field_Answer:
  assumes "wellFormed b"
  shows "lastField ''Answer:'' [] (trimmedLines (blockBody b)) = trim (answerText b)"
  unfolding wellFormed_trimmedLines [OF assms] lastField_Cons
  using wellFormed_extras [OF assms, of "''Answer:''"] substring_prefix [of "''Answer:''"]
  by (simp add: startsWith_def substring_def trim_of_trimEnd requiredPrefixes_def)

lemma wellFormed_field_Explanation:
  assumes "wellFormed b"
  shows "lastField ''Explanation:'' [] (trimmedLines (blockBody b))
       = lastField ''Explanation:'' [] (map trim (questionLine b # furtherLines b))"
  unfolding wellFormed_trimmedLines [OF assms] lastField_Cons list.map
  by (simp add: startsWith_def lastField_nonblank)

lemma wellFormed_parseBlock:
  assumes "wellFormed b" and "index \<noteq> 0"
  shows "parseBlock index (blockBody b) = Some (expectedQuestion index b)"
proof -
  have len: "\<not> length (trimmedLines (blockBody b)) < 6"
    by (simp add: wellFormed_trimmedLines [OF assms(1)])
  have hd: "hd (trimmedLines (blockBody b)) = trim (questionLine b)"
    by (simp add: wellFormed_trimmedLines [OF assms(1)])
  have ne: "trim (textA b) \<noteq> []" "trim (textB b) \<noteq> []" "trim (textC b) \<noteq> []"
    "trim (textD b) \<noteq> []" "trim (answerText b) \<noteq> []"
    using assms(1) by (simp_all add: wellFormed_def fieldText_def)
  show ?thesis
    unfolding parseBlock_trimmedLines Let_def
      wellFormed_field_A [OF assms(1)] wellFormed_field_B [OF assms(1)]
      wellFormed_field_C [OF assms(1)] wellFormed_field_D [OF assms(1)]
      wellFormed_field_Answer [OF assms(1)] wellFormed_field_Explanation [OF assms(1)] hd
    using len ne assms(2) by (simp add: expectedQuestion_def)
qed

section \<open>Splitting at the markers\<close>

lemma matchMarker_marker:
  assumes "markerDigits ds"
  shows "matchMarker (marker ds @ rest) = Some rest"
proof -
  have all: "\<forall>x\<in>set ds. isDigit x" and ne: "ds \<noteq> []"
    using assms by (simp_all add: markerDigits_def list_all_iff)
  have nd: "\<not> isDigit CHR '':''"
    by (simp add: isDigit_def)
  have tw: "takeWhile isDigit (ds @ CHR '':'' # rest) = ds"
    using all nd by (simp add: takeWhile_append2)
  have dw: "dropWhile isDigit (ds @ CHR '':'' # rest) = CHR '':'' # rest"
    using all nd by (simp add: dropWhile_append2)
  show ?thesis
    using ne by (simp add: marker_def matchMarker_def tw dw)
qed

lemma matchMarker_append_None:
  assumes "matchMarker (c # cs) = None" and "safeStart t"
  shows "matchMarker (c # cs @ t) = None"
proof (cases "c = CHR ''Q''")
  case False
  then show ?thesis by (simp add: matchMarker_def)
next
  case True
  show ?thesis
  proof (cases "\<forall>x\<in>set cs. isDigit x")
    case all: True
    then have tw: "takeWhile isDigit (cs @ t) = cs @ takeWhile isDigit t"
      and dw: "dropWhile isDigit (cs @ t) = dropWhile isDigit t"
      by (simp_all add: takeWhile_append2 dropWhile_append2)
    from assms(2) have "dropWhile isDigit t = t"
      by (cases t) (simp_all add: safeStart_def)
    with dw have dw': "dropWhile isDigit (cs @ t) = t"
      by simp
    have "(case t of [] \<Rightarrow> None | d # r \<Rightarrow> if d = CHR '':'' then Some r else None) = None"
      using assms(2) by (cases t) (simp_all add: safeStart_def)
    then show ?thesis
      by (simp add: matchMarker_def dw')
  next
    case False
    then obtain x where x: "x \<in> set cs" "\<not> isDigit x" by blast
    then have tw: "takeWhile isDigit (cs @ t) = takeWhile isDigit cs"
      and dw: "dropWhile isDigit (cs @ t) = dropWhile isDigit cs @ t"
      by (simp_all add: takeWhile_append1 dropWhile_append1)
    have "dropWhile isDigit cs \<noteq> []"
      using x by (auto simp: dropWhile_eq_Nil_conv)
    then obtain d r where dr: "dropWhile isDigit cs = d # r"
      by (cases "dropWhile isDigit cs") auto
    with assms(1) True show ?thesis
      by (simp add: matchMarker_def tw dw split: if_splits)
  qed
qed

lemma hasMarker_append:
  "\<not> hasMarker x \<Longrightarrow> \<not> hasMarker y \<Longrightarrow> safeStart y \<Longrightarrow> \<not> hasMarker (x @ y)"
  by (induction x) (simp_all add: matchMarker_append_None)

lemma splitMarker_no_marker:
  "\<not> hasMarker x \<Longrightarrow> safeStart t \<Longrightarrow> splitMarker cur (x @ t) = splitMarker (cur @ x) t"
proof (induction x arbitrary: cur)
  case Nil
  show ?case by simp
next
  case (Cons c x)
  then have "matchMarker (c # x @ t) = None"
    by (simp add: matchMarker_append_None)
  with Cons show ?case by simp
qed

lemma safeStart_marker: "safeStart (marker ds @ rest)"
  by (simp add: safeStart_def marker_def isDigit_def)

lemma safeStart_Nil: "safeStart []"
  by (simp add: safeStart_def)

lemma splitMarker_blocks:
  assumes "\<forall>x\<in>set xs. markerDigits (num x) \<and> \<not> hasMarker (body x)" and "\<not> hasMarker pre"
  shows "splitMarker cur (pre @ concat (map (\<lambda>x. marker (num x) @ body x) xs))
           = (cur @ pre) # map body xs"
  using assms
proof (induction xs arbitrary: cur pre)
  case Nil
  then show ?case
    using splitMarker_no_marker [of pre "[]" cur] by (simp add: safeStart_Nil)
next
  case (Cons x xs)
  let ?rest = "concat (map (\<lambda>x. marker (num x) @ body x) xs)"
  have "splitMarker cur (pre @ marker (num x) @ body x @ ?rest)
        = splitMarker (cur @ pre) (marker (num x) @ body x @ ?rest)"
    using Cons.prems(2) by (rule splitMarker_no_marker) (rule safeStart_marker)
  also have "\<dots> = (cur @ pre) # splitMarker [] (body x @ ?rest)"
  proof -
    have m: "matchMarker (marker (num x) @ body x @ ?rest) = Some (body x @ ?rest)"
      using Cons.prems(1) by (simp add: matchMarker_marker)
    obtain r where r: "marker (num x) @ body x @ ?rest = CHR ''Q'' # r"
      by (simp add: marker_def)
    show ?thesis
      using m unfolding r by simp
  qed
  also have "splitMarker [] (body x @ ?rest) = ([] @ body x) # map body xs"
    using Cons.prems(1) by (intro Cons.IH) simp_all
  finally show ?case by simp
qed

lemma map_filter_enumerate_body:
  "List.map_filter (\<lambda>(index, block). parseBlock index block) (enumerate n (map body xs))
     = List.map_filter (\<lambda>(index, x). parseBlock index (body x)) (enumerate n xs)"
  by (induction xs arbitrary: n) (simp_all add: List.map_filter_def)

lemma parseQuizText_blocks:
  assumes "\<forall>x\<in>set xs. markerDigits (num x) \<and> \<not> hasMarker (body x)" and "\<not> hasMarker pre"
  shows "parseQuizText (pre @ concat (map (\<lambda>x. marker (num x) @ body x) xs))
           = List.map_filter (\<lambda>(index, x). parseBlock index (body x)) (enumerate 1 xs)"
proof -
  have "splitMarker [] (pre @ concat (map (\<lambda>x. marker (num x) @ body x) xs)) = pre # map body xs"
    using splitMarker_blocks [OF assms, of "[]"] by simp
  then have "parseQuizText (pre @ concat (map (\<lambda>x. marker (num x) @ body x) xs))
    = List.map_filter (\<lambda>(index, block). parseBlock index block)
        ((0, pre) # enumerate 1 (map body xs))"
    by (simp add: parseQuizText_def)
  also have "\<dots> = List.map_filter (\<lambda>(index, block). parseBlock index block)
        (enumerate 1 (map body xs))"
    by (simp add: List.map_filter_def parseBlock_0)
  finally show ?thesis
    by (simp add: map_filter_enumerate_body)
qed

lemma hasMarker_joinLines:
  "\<forall>l\<in>set ls. \<not> hasMarker l \<Longrightarrow> \<not> hasMarker (joinLines ls)"
proof (induction ls rule: joinLines.induct)
  case 1
  show ?case by simp
next
  case (2 l)
  then show ?case by simp
next
  case (3 l m ls)
  have "\<not> hasMarker (CHR 0x0A # joinLines (m # ls))"
    using 3 by (simp add: matchMarker_def)
  moreover have "safeStart (CHR 0x0A # joinLines (m # ls))"
    by (simp add: safeStart_def isDigit_def)
  ultimately show ?case
    using 3 by (simp add: hasMarker_append)
qed

lemma wellFormed_no_marker: "wellFormed b \<Longrightarrow> \<not> hasMarker (blockBody b)"
  unfolding blockBody_def
  by (rule hasMarker_joinLines)
     (auto simp: wellFormed_def fieldText_def harmlessLine_def list_all_iff matchMarker_def)

section \<open>Questions the parser returns\<close>

lemma missingField_no_question: "missingField block \<Longrightarrow> parseBlock index block = None"
  unfolding missingField_def list_ex_iff list_all_iff
  using missing_field_no_question by blast

lemma few_lines_no_question:
  assumes "length (filter (\<lambda>line. trim line \<noteq> []) (splitOn CHR 0x0A block)) < 6"
  shows "parseBlock index block = None"
proof -
  have "trimmedLines block = map trim (filter (\<lambda>line. trim line \<noteq> []) (splitOn CHR 0x0A block))"
    by (simp add: trimmedLines_def filter_map comp_def)
  with assms have "length (trimmedLines block) < 6" by simp
  then show ?thesis
    by (simp add: parseBlock_trimmedLines)
qed

lemma parseQuizText_member:
  "q \<in> set (parseQuizText quizText) \<Longrightarrow> \<exists>index block. parseBlock index block = Some q"
  by (fastforce simp: parseQuizText_def List.map_filter_def)

lemma no_D_missing: "missingField '' 2+2?\<newline>A. 1\<newline>B. 2\<newline>C. 3\<newline>Answer: B\<newline>''"
  by (simp add: missingField_def requiredPrefixes_def supplies_def trim_def isWhiteSpace_def
      startsWith_def substring_def)

text \<open>
  Claim C1, as the parser has it. Every question returned by \<open>parseQuizText\<close> has a
  non-empty question text, four non-empty options \<open>A\<close> to \<open>D\<close> and a non-empty
  correct answer; the correct answer is not checked against the letters \<open>A\<close> to
  \<open>D\<close>. A block in which no line supplies one of the options or the answer, or
  with fewer than six non-blank lines, never yields a question.
\<close>

theorem parseQuizText_question_fields:
  "(q \<in> set (parseQuizText quizText) \<longrightarrow>
      question q \<noteq> [] \<and> A (options q) \<noteq> [] \<and> B (options q) \<noteq> []
      \<and> C (options q) \<noteq> [] \<and> D (options q) \<noteq> [] \<and> correctAnswer q \<noteq> [])
   \<and> (missingField block \<longrightarrow> parseBlock index block = None)
   \<and> (length (filter (\<lambda>line. trim line \<noteq> []) (splitOn CHR 0x0A block)) < 6 \<longrightarrow>
        parseBlock index block = None)"
  using parseQuizText_member [of q quizText] parseBlock_Some_fields
    missingField_no_question [of block index] few_lines_no_question [of block index]
  by blast

theorem parseQuizText_question_fields_witness:
  "\<lparr>id_q = 1, question = ''1+1?'', options = \<lparr>A = ''1'', B = ''2'', C = ''3'', D = ''4''\<rparr>,
      correctAnswer = ''B'', explanation = []\<rparr>
     \<in> set (parseQuizText ''Q1: 1+1?\<newline>A. 1\<newline>B. 2\<newline>C. 3\<newline>D. 4\<newline>Answer: B\<newline>Q2: 2+2?\<newline>A. 1\<newline>B. 2\<newline>C. 3\<newline>D. 4\<newline>Answer: D'')
   \<and> missingField '' 2+2?\<newline>A. 1\<newline>B. 2\<newline>C. 3\<newline>Answer: B\<newline>''
   \<and> parseBlock 2 '' 2+2?\<newline>A. 1\<newline>B. 2\<newline>C. 3\<newline>Answer: B\<newline>'' = None"
  using parseQuizText_question_fields
    [of "\<lparr>id_q = 1, question = ''1+1?'', options = \<lparr>A = ''1'', B = ''2'', C = ''3'', D = ''4''\<rparr>,
      correctAnswer = ''B'', explanation = []\<rparr>"
      "''Q1: 1+1?\<newline>A. 1\<newline>B. 2\<newline>C. 3\<newline>D. 4\<newline>Answer: B\<newline>Q2: 2+2?\<newline>A. 1\<newline>B. 2\<newline>C. 3\<newline>D. 4\<newline>Answer: D''"
      "'' 2+2?\<newline>A. 1\<newline>B. 2\<newline>C. 3\<newline>Answer: B\<newline>''" 2]
    no_D_missing
  by (simp add: two_blocks_parse)

lemma answer_E_split:
  "splitMarker [] ''Q1: 1+1?\<newline>A. 1\<newline>B. 2\<newline>C. 3\<newline>D. 4\<newline>Answer: E''
   = [[], '' 1+1?\<newline>A. 1\<newline>B. 2\<newline>C. 3\<newline>D. 4\<newline>Answer: E'']"
  by (simp add: matchMarker_def isDigit_def)

lemma answer_E_lines:
  "blockLines '' 1+1?\<newline>A. 1\<newline>B. 2\<newline>C. 3\<newline>D. 4\<newline>Answer: E''
     = [''1+1?'', ''A. 1'', ''B. 2'', ''C. 3'', ''D. 4'', ''Answer: E'']"
  by (simp add: blockLines_def trim_def isWhiteSpace_def)

lemma answer_E_block:
  "parseBlock (Suc 0) '' 1+1?\<newline>A. 1\<newline>B. 2\<newline>C. 3\<newline>D. 4\<newline>Answer: E''
     = Some \<lparr>id_q = 1, question = ''1+1?'',
             options = \<lparr>A = ''1'', B = ''2'', C = ''3'', D = ''4''\<rparr>,
             correctAnswer = ''E'', explanation = []\<rparr>"
  unfolding parseBlock_def answer_E_lines
  by (simp add: trim_def isWhiteSpace_def scanLine_def startsWith_def substring_def)

text \<open>
  Claim C1 as it is written asks for a correct-answer letter among \<open>A\<close> to \<open>D\<close>.
  The parser keeps whatever follows \<open>Answer:\<close>: the block below yields a question
  whose correct answer is \<open>E\<close>, which is none of \<open>A\<close>, \<open>B\<close>, \<open>C\<close>, \<open>D\<close>.
\<close>

theorem parseQuizText_answer_not_a_letter_counterexample:
  "parseQuizText ''Q1: 1+1?\<newline>A. 1\<newline>B. 2\<newline>C. 3\<newline>D. 4\<newline>Answer: E''
     = [\<lparr>id_q = 1, question = ''1+1?'',
         options = \<lparr>A = ''1'', B = ''2'', C = ''3'', D = ''4''\<rparr>,
         correctAnswer = ''E'', explanation = []\<rparr>]
   \<and> ''E'' \<notin> set [''A'', ''B'', ''C'', ''D'']"
  unfolding parseQuizText_def answer_E_split
  by (simp add: List.map_filter_def parseBlock_0 answer_E_block)

text \<open>
  The question text is whatever the first non-blank line of the block is: a block
  with nothing after its marker and an explanation as sixth line yields a question
  whose text is the first option line.
\<close>

lemma no_question_text_split:
  "splitMarker [] ''Q1:\<newline>A. 1\<newline>B. 2\<newline>C. 3\<newline>D. 4\<newline>Answer: B\<newline>Explanation: sum''
   = [[], ''\<newline>A. 1\<newline>B. 2\<newline>C. 3\<newline>D. 4\<newline>Answer: B\<newline>Explanation: sum'']"
  by (simp add: matchMarker_def isDigit_def)

lemma no_question_text_lines:
  "blockLines ''\<newline>A. 1\<newline>B. 2\<newline>C. 3\<newline>D. 4\<newline>Answer: B\<newline>Explanation: sum''
     = [''A. 1'', ''B. 2'', ''C. 3'', ''D. 4'', ''Answer: B'', ''Explanation: sum'']"
  by (simp add: blockLines_def trim_def isWhiteSpace_def)

lemma no_question_text_block:
  "parseBlock (Suc 0) ''\<newline>A. 1\<newline>B. 2\<newline>C. 3\<newline>D. 4\<newline>Answer: B\<newline>Explanation: sum''
     = Some \<lparr>id_q = 1, question = ''A. 1'',
             options = \<lparr>A = ''1'', B = ''2'', C = ''3'', D = ''4''\<rparr>,
             correctAnswer = ''B'', explanation = ''sum''\<rparr>"
  unfolding parseBlock_def no_question_text_lines
  by (simp add: trim_def isWhiteSpace_def scanLine_def startsWith_def substring_def)

lemma parseQuizText_first_line_is_question:
  "parseQuizText ''Q1:\<newline>A. 1\<newline>B. 2\<newline>C. 3\<newline>D. 4\<newline>Answer: B\<newline>Explanation: sum''
     = [\<lparr>id_q = 1, question = ''A. 1'',
         options = \<lparr>A = ''1'', B = ''2'', C = ''3'', D = ''4''\<rparr>,
         correctAnswer = ''B'', explanation = ''sum''\<rparr>]"
  unfolding parseQuizText_def no_question_text_split
  by (simp add: List.map_filter_def parseBlock_0 no_question_text_block)

text \<open>
  The earlier parser takes the first character of what follows \<open>Answer:\<close>, again
  without comparing it to \<open>A\<close>--\<open>D\<close>, and pushes a question for every line that
  starts with \<open>Q\<close>, complete or not.
\<close>

lemma answer_E_trimmed:
  "filter (\<lambda>l. l \<noteq> []) (map trim (splitOn CHR 0x0A ''Q1: 1+1?\<newline>A. 1\<newline>B. 2\<newline>C. 3\<newline>D. 4\<newline>Answer: E''))
     = [''Q1: 1+1?'', ''A. 1'', ''B. 2'', ''C. 3'', ''D. 4'', ''Answer: E'']"
  by (simp add: trim_def isWhiteSpace_def)

lemma parseAIQuizText_answer_unchecked:
  "parseAIQuizText ''Q1: 1+1?\<newline>A. 1\<newline>B. 2\<newline>C. 3\<newline>D. 4\<newline>Answer: E''
     = [\<lparr>question_v1 = ''1+1?'', options_v1 = [''1'', ''2'', ''3'', ''4''], answer_v1 = Some ''E''\<rparr>]"
  unfolding parseAIQuizText_def answer_E_trimmed
  by (simp add: startsWith_def stripMarker_def matchMarker_def isDigit_def isWhiteSpace_def
      isOptionLine_def isAnswerLine_def toLowerCaseChar_def upperCaseLetters_def
      lowerCaseLetters_def substring_def trim_def)

lemma short_trimmed:
  "filter (\<lambda>l. l \<noteq> []) (map trim (splitOn CHR 0x0A ''Q1: 1+1?\<newline>A. 1''))
     = [''Q1: 1+1?'', ''A. 1'']"
  by (simp add: trim_def isWhiteSpace_def)

lemma parseAIQuizText_incomplete_block:
  "parseAIQuizText ''Q1: 1+1?\<newline>A. 1''
     = [\<lparr>question_v1 = ''1+1?'', options_v1 = [''1''], answer_v1 = Some []\<rparr>]"
  unfolding parseAIQuizText_def short_trimmed
  by (simp add: startsWith_def stripMarker_def matchMarker_def isDigit_def isWhiteSpace_def
      isOptionLine_def substring_def trim_def)

section \<open>Texts made of blocks\<close>




lemma map_filter_cong_enumerate:
  assumes "\<And>i x. x \<in> set xs \<Longrightarrow> n \<le> i \<Longrightarrow> f (i, x) = g (i, x)"
  shows "List.map_filter f (enumerate n xs) = List.map_filter g (enumerate n xs)"
  using assms
proof (induction xs arbitrary: n)
  case Nil
  show ?case by simp
next
  case (Cons x xs)
  have "List.map_filter f (enumerate (Suc n) xs) = List.map_filter g (enumerate (Suc n) xs)"
    by (rule Cons.IH) (simp add: Cons.prems)
  moreover have "f (n, x) = g (n, x)"
    by (simp add: Cons.prems)
  ultimately show ?case
    by (simp add: List.map_filter_def)
qed


lemma map_filter_Some: "List.map_filter (\<lambda>x. Some (f x)) xs = map f xs"
  by (simp add: List.map_filter_def)

lemmas block_eval =
  wellFormed_def fieldText_def harmlessLine_def markerDigits_def matchMarker_def
  trim_def isWhiteSpace_def startsWith_def requiredPrefixes_def isDigit_def

lemma sample_block_1:
  "wellFormed \<lparr>markerNumber = ''1'', questionLine = '' 1+1?'', textA = '' 1'', textB = '' 2'',
      textC = '' 3'', textD = '' 4'', answerText = '' B'', furtherLines = [[]]\<rparr>"
  by (simp add: block_eval)

lemma sample_block_2:
  "wellFormed \<lparr>markerNumber = ''2'', questionLine = '' 2+2?'', textA = '' 1'', textB = '' 2'',
      textC = '' 3'', textD = '' 4'', answerText = '' D'', furtherLines = [''Explanation: sum'']\<rparr>"
  by (simp add: block_eval)


lemma sample_pre: "\<not> hasMarker ''Quiz:\<newline>''"
  by (simp add: matchMarker_def isDigit_def)


text \<open>
  Claim C2. A raw text made of well-formed blocks only (after an optional preamble
  without marker) parses to exactly one question per block, in block order: the
  \<open>i\<close>-th block gives the question with identifier \<open>i\<close>, counted from 1, with the
  block's trimmed question text, options and answer.
\<close>

theorem wellFormed_blocks_parse:
  assumes "\<not> hasMarker pre" and "list_all wellFormed bs"
  shows "parseQuizText (pre @ concat (map renderBlock bs))
           = map (\<lambda>(index, b). expectedQuestion index b) (enumerate 1 bs)
       \<and> length (parseQuizText (pre @ concat (map renderBlock bs))) = length bs
       \<and> map id_q (parseQuizText (pre @ concat (map renderBlock bs))) = [1..<Suc (length bs)]"
proof -
  have v: "\<forall>x\<in>set bs. markerDigits (markerNumber x) \<and> \<not> hasMarker (blockBody x)"
    using assms(2) by (simp add: list_all_iff wellFormed_no_marker wellFormed_def)
  have r: "renderBlock = (\<lambda>x. marker (markerNumber x) @ blockBody x)"
    by (rule ext) (simp add: renderBlock_def)
  have "parseQuizText (pre @ concat (map renderBlock bs))
    = List.map_filter (\<lambda>(index, x). parseBlock index (blockBody x)) (enumerate 1 bs)"
    unfolding r by (rule parseQuizText_blocks [OF v assms(1)])
  also have "\<dots> = List.map_filter (\<lambda>(index, b). Some (expectedQuestion index b)) (enumerate 1 bs)"
    by (rule map_filter_cong_enumerate) (use assms(2) in \<open>simp add: list_all_iff wellFormed_parseBlock\<close>)
  also have "\<dots> = map (\<lambda>(index, b). expectedQuestion index b) (enumerate 1 bs)"
    using map_filter_Some [of "\<lambda>(index, b). expectedQuestion index b" "enumerate 1 bs"]
    by (simp add: case_prod_unfold)
  finally have eq: "parseQuizText (pre @ concat (map renderBlock bs))
           = map (\<lambda>(index, b). expectedQuestion index b) (enumerate 1 bs)" .
  have m: "map id_q (map (\<lambda>(index, b). expectedQuestion index b) (enumerate 1 bs))
        = map fst (enumerate 1 bs)"
    by (simp add: case_prod_unfold expectedQuestion_def comp_def)
  have ids: "map id_q (parseQuizText (pre @ concat (map renderBlock bs))) = [1..<Suc (length bs)]"
    unfolding eq m map_fst_enumerate by (simp del: upt_Suc)
  have len: "length (parseQuizText (pre @ concat (map renderBlock bs))) = length bs"
    unfolding eq by simp
  from eq ids len show ?thesis by blast
qed

theorem wellFormed_blocks_parse_witness:
  "\<not> hasMarker ''Quiz:\<newline>''
   \<and> list_all wellFormed
        [\<lparr>markerNumber = ''1'', questionLine = '' 1+1?'', textA = '' 1'', textB = '' 2'',
          textC = '' 3'', textD = '' 4'', answerText = '' B'', furtherLines = [[]]\<rparr>,
         \<lparr>markerNumber = ''2'', questionLine = '' 2+2?'', textA = '' 1'', textB = '' 2'',
          textC = '' 3'', textD = '' 4'', answerText = '' D'', furtherLines = [''Explanation: sum'']\<rparr>]
   \<and> parseQuizText ''Quiz:\<newline>Q1: 1+1?\<newline>A. 1\<newline>B. 2\<newline>C. 3\<newline>D. 4\<newline>Answer: B\<newline>Q2: 2+2?\<newline>A. 1\<newline>B. 2\<newline>C. 3\<newline>D. 4\<newline>Answer: D\<newline>Explanation: sum''
     = [\<lparr>id_q = 1, question = ''1+1?'', options = \<lparr>A = ''1'', B = ''2'', C = ''3'', D = ''4''\<rparr>,
         correctAnswer = ''B'', explanation = []\<rparr>,
        \<lparr>id_q = 2, question = ''2+2?'', options = \<lparr>A = ''1'', B = ''2'', C = ''3'', D = ''4''\<rparr>,
         correctAnswer = ''D'', explanation = ''sum''\<rparr>]"
proof -
  let ?b1 = "\<lparr>markerNumber = ''1'', questionLine = '' 1+1?'', textA = '' 1'', textB = '' 2'',
          textC = '' 3'', textD = '' 4'', answerText = '' B'', furtherLines = [[]]\<rparr>"
  let ?b2 = "\<lparr>markerNumber = ''2'', questionLine = '' 2+2?'', textA = '' 1'', textB = '' 2'',
          textC = '' 3'', textD = '' 4'', answerText = '' D'', furtherLines = [''Explanation: sum'']\<rparr>"
  have wf: "list_all wellFormed [?b1, ?b2]"
    by (simp add: sample_block_1 sample_block_2)
  have rendered: "''Quiz:\<newline>'' @ concat (map renderBlock [?b1, ?b2])
    = ''Quiz:\<newline>Q1: 1+1?\<newline>A. 1\<newline>B. 2\<newline>C. 3\<newline>D. 4\<newline>Answer: B\<newline>Q2: 2+2?\<newline>A. 1\<newline>B. 2\<newline>C. 3\<newline>D. 4\<newline>Answer: D\<newline>Explanation: sum''"
    by (simp add: renderBlock_def marker_def blockBody_def)
  have e1: "expectedQuestion (Suc 0) ?b1 = \<lparr>id_q = 1, question = ''1+1?'', options = \<lparr>A = ''1'', B = ''2'', C = ''3'', D = ''4''\<rparr>,
         correctAnswer = ''B'', explanation = []\<rparr>"
    by (simp add: expectedQuestion_def lastField_def trim_def isWhiteSpace_def startsWith_def)
  have e2: "expectedQuestion (Suc (Suc 0)) ?b2 = \<lparr>id_q = 2, question = ''2+2?'', options = \<lparr>A = ''1'', B = ''2'', C = ''3'', D = ''4''\<rparr>,
         correctAnswer = ''D'', explanation = ''sum''\<rparr>"
    by (simp add: expectedQuestion_def lastField_def trim_def isWhiteSpace_def startsWith_def substring_def)
  have "parseQuizText (''Quiz:\<newline>'' @ concat (map renderBlock [?b1, ?b2]))
      = map (\<lambda>(index, b). expectedQuestion index b) (enumerate 1 [?b1, ?b2])"
    using wellFormed_blocks_parse [OF sample_pre wf] by blast
  then show ?thesis
    unfolding rendered using wf sample_pre by (simp add: e1 e2)
qed



section \<open>An empty parse is an error\<close>

lemma handleSubmit_without_file:
  "file_sel st = None \<Longrightarrow> handleSubmit shuffle response st = st\<lparr>error := ''Please select a file''\<rparr>"
  by (simp add: handleSubmit_def)










end
